theory Spec2Isabelle
  imports Complex_Main
begin

section \<open>JavaScript containers used by the squad modules\<close>

text \<open>
  A JavaScript \<open>Map\<close> iterates its entries in insertion order, and \<open>set\<close> on a key
  that is already present replaces the value where the key stands. The model is an
  association list in iteration order. Keys are strings, compared by equality.
\<close>

type_synonym ('k, 'v) jsmap = "('k \<times> 'v) list"

fun map_set :: "'k \<Rightarrow> 'v \<Rightarrow> ('k, 'v) jsmap \<Rightarrow> ('k, 'v) jsmap" where
  "map_set k v [] = [(k, v)]"
| "map_set k v (e # es) = (if fst e = k then (k, v) # es else e # map_set k v es)"

definition map_get :: "('k, 'v) jsmap \<Rightarrow> 'k \<Rightarrow> 'v option" where
  "map_get m k = map_of m k"

definition map_has :: "('k, 'v) jsmap \<Rightarrow> 'k \<Rightarrow> bool" where
  "map_has m k = (map_of m k \<noteq> None)"

definition map_delete :: "'k \<Rightarrow> ('k, 'v) jsmap \<Rightarrow> ('k, 'v) jsmap" where
  "map_delete k m = filter (\<lambda>e. fst e \<noteq> k) m"

definition map_values :: "('k, 'v) jsmap \<Rightarrow> 'v list" where
  "map_values m = map snd m"

text \<open>
  \<open>Array.prototype.sort(compare)\<close> is stable: with a consistent comparator the result
  is the one ordering in which \<open>compare(a, b) > 0\<close> never holds for \<open>a\<close> before \<open>b\<close> and
  elements that compare equal keep their order. Insertion from the right computes that
  ordering: an element passes exactly the elements it compares greater than.
\<close>

fun sort_insert :: "('a \<Rightarrow> 'a \<Rightarrow> 'n::{zero,linorder}) \<Rightarrow> 'a \<Rightarrow> 'a list \<Rightarrow> 'a list" where
  "sort_insert cmp x [] = [x]"
| "sort_insert cmp x (y # ys) =
     (if cmp x y \<le> 0 then x # y # ys else y # sort_insert cmp x ys)"

definition js_sort :: "('a \<Rightarrow> 'a \<Rightarrow> 'n::{zero,linorder}) \<Rightarrow> 'a list \<Rightarrow> 'a list" where
  "js_sort cmp xs = foldr (sort_insert cmp) xs []"

text \<open>Decimal text of a natural number and of an integer, as template literals print them.\<close>

fun string_of_nat :: "nat \<Rightarrow> string" where
  "string_of_nat n =
     (if n < 10 then [char_of (48 + n)]
      else string_of_nat (n div 10) @ [char_of (48 + n mod 10)])"

declare string_of_nat.simps [simp del]

definition string_of_int :: "int \<Rightarrow> string" where
  "string_of_int i = (if i < 0 then CHR ''-'' # string_of_nat (nat (- i)) else string_of_nat (nat i))"

section \<open>Values of type \<open>unknown\<close>\<close>

text \<open>
  Execution results, log data and workflow contexts are typed \<open>unknown\<close> or
  \<open>Record<string, unknown>\<close>. They are modelled as JSON-like values. Numbers are
  exact rationals with the three special doubles; rounding to 64 bits is not modelled.
  An object lists its own properties in the order \<open>Object.entries\<close> enumerates them.
\<close>

datatype jsnum = NaN | NegInfinity | Fin rat | PosInfinity

datatype jsval =
    JUndefined
  | JNull
  | JBool bool
  | JNum jsnum
  | JStr string
  | JArr "jsval list"
  | JObj "(string \<times> jsval) list"

section \<open>types.ts\<close>

text \<open>
  The types of the squad modules (src/unnamed/part_002, from line 907). Two interfaces may
  name a field alike; a record field that would clash carries the name of its record in
  front. Priorities and progress values are integers.
\<close>

datatype TaskStatus = Backlog | Em_progresso | Bloqueado | Review | Concluido

datatype AgentStatus = Idle | Working | Blocked | Offline

datatype ExecutionStatus = Pending | Running | Completed | Failed | ExecBlocked

datatype LogLevel = Info | Warn | Error | Debug

record Task =
  task_id :: string
  task_squad_id :: string
  titulo :: string
  descricao :: "string option"
  task_status :: TaskStatus
  motivo_bloqueio :: "string option"
  assigned_agent_id :: "string option"
  task_priority :: "int option"
  task_created_at :: string
  task_updated_at :: string

text \<open>
  Timestamps: \<open>new Date()\<close>, \<open>Date.now()\<close> and the ISO strings made from them are
  the millisecond count since the epoch, an integer. Every operation that reads the clock
  takes the reading as its first argument \<open>now\<close>.
\<close>

record ExecutionLog =
  log_timestamp :: int
  log_level :: LogLevel
  log_message :: string
  log_data :: "jsval option"

record TaskExecution =
  exec_id :: string
  taskId :: string
  agentId :: string
  exec_status :: ExecutionStatus
  progress :: int
  logs :: "ExecutionLog list"
  result :: "jsval option"
  error :: "string option"
  startedAt :: int
  completedAt :: "int option"

section \<open>queue.ts: TaskQueue\<close>

text \<open>
  The class \<open>TaskQueue\<close> (src/unnamed/part_002, lines 28 to 439): the pending queue and
  the ledger of executions, two maps, with the two options of the constructor. Every method
  takes the queue and returns what it returns together with the queue it leaves.
\<close>

record QueuedTask =
  task :: Task
  priority :: int
  queuedAt :: int
  attempts :: nat
  lastAttempt :: "int option"

record ExecutionState =
  execution :: TaskExecution
  state_logs :: "ExecutionLog list"
  startTime :: int

record TaskQueue =
  queue :: "(string, QueuedTask) jsmap"
  executions :: "(string, ExecutionState) jsmap"
  maxRetries :: int
  retryDelayMs :: int

text \<open>The constructor: \<open>maxRetries\<close> defaults to 3 and \<open>retryDelayMs\<close> to 5000.\<close>

definition new_TaskQueue :: "int option \<Rightarrow> int option \<Rightarrow> TaskQueue" where
  "new_TaskQueue optMaxRetries optRetryDelayMs =
     \<lparr> queue = [], executions = [],
       maxRetries = (case optMaxRetries of Some n \<Rightarrow> n | None \<Rightarrow> 3),
       retryDelayMs = (case optRetryDelayMs of Some n \<Rightarrow> n | None \<Rightarrow> 5000) \<rparr>"

subsection \<open>Queue operations\<close>

text \<open>
  \<open>enqueue\<close> builds a fresh entry (\<open>attempts: 0\<close>, no \<open>lastAttempt\<close>) and stores it
  under the task id with \<open>Map.set\<close>, whether or not the id is already queued.
\<close>

definition enqueue :: "int \<Rightarrow> Task \<Rightarrow> int option \<Rightarrow> TaskQueue \<Rightarrow> TaskQueue" where
  "enqueue now t prio q =
     (let queuedTask =
        \<lparr> task = t,
          priority = (case prio of Some p \<Rightarrow> p
                      | None \<Rightarrow> (case task_priority t of Some p \<Rightarrow> p | None \<Rightarrow> 0)),
          queuedAt = now,
          attempts = 0,
          lastAttempt = None \<rparr>
      in q\<lparr> queue := map_set (task_id t) queuedTask (queue q) \<rparr>)"

definition dequeue :: "string \<Rightarrow> TaskQueue \<Rightarrow> Task option \<times> TaskQueue" where
  "dequeue tid q =
     (case map_get (queue q) tid of
        Some queuedTask \<Rightarrow> (Some (task queuedTask), q\<lparr> queue := map_delete tid (queue q) \<rparr>)
      | None \<Rightarrow> (None, q))"

text \<open>The comparator of \<open>getNext\<close>: higher priority first, then older first.\<close>

definition queue_compare :: "QueuedTask \<Rightarrow> QueuedTask \<Rightarrow> int" where
  "queue_compare a b =
     (if priority b \<noteq> priority a then priority b - priority a
      else queuedAt a - queuedAt b)"

text \<open>The callback of \<open>sorted.find\<close> in \<open>getNext\<close>.\<close>

definition retry_ready :: "int \<Rightarrow> int \<Rightarrow> QueuedTask \<Rightarrow> bool" where
  "retry_ready now delay qt =
     (if attempts qt = 0 then True
      else case lastAttempt qt of
             None \<Rightarrow> True
           | Some la \<Rightarrow> now - la \<ge> delay)"

definition getNext :: "int \<Rightarrow> TaskQueue \<Rightarrow> Task option" where
  "getNext now q =
     (if length (queue q) = 0 then None
      else
        (let sorted = js_sort queue_compare (map_values (queue q)) in
         case sorted of
           [] \<Rightarrow> None
         | next # _ \<Rightarrow>
             (case lastAttempt next of
                Some la \<Rightarrow>
                  if attempts next > 0 \<and> now - la < retryDelayMs q
                  then map_option task (find (retry_ready now (retryDelayMs q)) sorted)
                  else Some (task next)
              | None \<Rightarrow> Some (task next))))"

definition getAll :: "TaskQueue \<Rightarrow> Task list" where
  "getAll q = map task (js_sort (\<lambda>a b. priority b - priority a) (map_values (queue q)))"

definition size_queue :: "TaskQueue \<Rightarrow> nat" where
  "size_queue q = length (queue q)"

definition has :: "TaskQueue \<Rightarrow> string \<Rightarrow> bool" where
  "has q tid = map_has (queue q) tid"

definition updatePriority :: "string \<Rightarrow> int \<Rightarrow> TaskQueue \<Rightarrow> bool \<times> TaskQueue" where
  "updatePriority tid p q =
     (case map_get (queue q) tid of
        Some queuedTask \<Rightarrow>
          (True, q\<lparr> queue := map_set tid (queuedTask\<lparr> priority := p \<rparr>) (queue q) \<rparr>)
      | None \<Rightarrow> (False, q))"

definition markAttempt :: "int \<Rightarrow> string \<Rightarrow> TaskQueue \<Rightarrow> TaskQueue" where
  "markAttempt now tid q =
     (case map_get (queue q) tid of
        Some queuedTask \<Rightarrow>
          q\<lparr> queue := map_set tid
                (queuedTask\<lparr> attempts := attempts queuedTask + 1, lastAttempt := Some now \<rparr>)
                (queue q) \<rparr>
      | None \<Rightarrow> q)"

definition canRetry :: "TaskQueue \<Rightarrow> string \<Rightarrow> bool" where
  "canRetry q tid =
     (case map_get (queue q) tid of
        None \<Rightarrow> False
      | Some queuedTask \<Rightarrow> int (attempts queuedTask) < maxRetries q)"

subsection \<open>Execution tracking\<close>

definition startExecution :: "int \<Rightarrow> string \<Rightarrow> string \<Rightarrow> TaskQueue \<Rightarrow> TaskExecution \<times> TaskQueue" where
  "startExecution now tid aid q =
     (let executionId = ''exec_'' @ tid @ ''_'' @ string_of_int now;
          exec = \<lparr> exec_id = executionId, taskId = tid, agentId = aid,
                   exec_status = Running, progress = 0, logs = [],
                   result = None, error = None, startedAt = now, completedAt = None \<rparr>;
          q1 = q\<lparr> executions :=
                    map_set executionId
                      \<lparr> execution = exec, state_logs = [], startTime = now \<rparr>
                      (executions q) \<rparr>
      in (exec, snd (dequeue tid q1)))"

definition addLog :: "int \<Rightarrow> string \<Rightarrow> LogLevel \<Rightarrow> string \<Rightarrow> jsval option \<Rightarrow> TaskQueue \<Rightarrow> TaskQueue" where
  "addLog now eid lvl msg dat q =
     (case map_get (executions q) eid of
        Some st \<Rightarrow>
          (let lg = \<lparr> log_timestamp = now, log_level = lvl, log_message = msg, log_data = dat \<rparr>;
               ls = state_logs st @ [lg]
           in q\<lparr> executions := map_set eid
                    (st\<lparr> state_logs := ls, execution := (execution st)\<lparr> logs := ls \<rparr> \<rparr>)
                    (executions q) \<rparr>)
      | None \<Rightarrow> q)"

text \<open>\<open>if (message)\<close>: a message that is absent or the empty string adds no log.\<close>

definition updateProgress :: "int \<Rightarrow> string \<Rightarrow> int \<Rightarrow> string option \<Rightarrow> TaskQueue \<Rightarrow> TaskQueue" where
  "updateProgress now eid p msg q =
     (case map_get (executions q) eid of
        Some st \<Rightarrow>
          (let q1 = q\<lparr> executions := map_set eid
                         (st\<lparr> execution := (execution st)\<lparr> progress := min 100 (max 0 p) \<rparr> \<rparr>)
                         (executions q) \<rparr>
           in case msg of
                Some m \<Rightarrow> if m \<noteq> [] then addLog now eid Info m None q1 else q1
              | None \<Rightarrow> q1)
      | None \<Rightarrow> q)"

definition completeExecution :: "int \<Rightarrow> string \<Rightarrow> jsval option \<Rightarrow> TaskQueue \<Rightarrow> TaskExecution option \<times> TaskQueue" where
  "completeExecution now eid res q =
     (case map_get (executions q) eid of
        Some st \<Rightarrow>
          (let q1 = q\<lparr> executions := map_set eid
                         (st\<lparr> execution := (execution st)
                              \<lparr> exec_status := Completed, progress := 100,
                                result := res, completedAt := Some now \<rparr> \<rparr>)
                         (executions q) \<rparr>;
               q2 = addLog now eid Info ''Task completed successfully'' None q1
           in (map_option execution (map_get (executions q2) eid), q2))
      | None \<Rightarrow> (None, q))"

definition failExecution :: "int \<Rightarrow> string \<Rightarrow> string \<Rightarrow> TaskQueue \<Rightarrow> TaskExecution option \<times> TaskQueue" where
  "failExecution now eid err q =
     (case map_get (executions q) eid of
        Some st \<Rightarrow>
          (let q1 = q\<lparr> executions := map_set eid
                         (st\<lparr> execution := (execution st)
                              \<lparr> exec_status := Failed, error := Some err,
                                completedAt := Some now \<rparr> \<rparr>)
                         (executions q) \<rparr>;
               q2 = addLog now eid Error (''Task failed: '' @ err) None q1
           in (map_option execution (map_get (executions q2) eid), q2))
      | None \<Rightarrow> (None, q))"

definition blockExecution :: "int \<Rightarrow> string \<Rightarrow> string \<Rightarrow> TaskQueue \<Rightarrow> TaskExecution option \<times> TaskQueue" where
  "blockExecution now eid reason q =
     (case map_get (executions q) eid of
        Some st \<Rightarrow>
          (let q1 = q\<lparr> executions := map_set eid
                         (st\<lparr> execution := (execution st)
                              \<lparr> exec_status := ExecBlocked, error := Some reason \<rparr> \<rparr>)
                         (executions q) \<rparr>;
               q2 = addLog now eid Warn (''Task blocked: '' @ reason) None q1
           in (map_option execution (map_get (executions q2) eid), q2))
      | None \<Rightarrow> (None, q))"

definition getExecution :: "TaskQueue \<Rightarrow> string \<Rightarrow> TaskExecution option" where
  "getExecution q eid = map_option execution (map_get (executions q) eid)"

text \<open>
  \<open>getExecutionByTaskId\<close>: the \<open>for ... of\<close> loop over \<open>executions.values()\<close> returns
  at the first state whose execution has the task id.
\<close>

fun first_for_task :: "string \<Rightarrow> ExecutionState list \<Rightarrow> TaskExecution option" where
  "first_for_task tid [] = None"
| "first_for_task tid (st # sts) =
     (if taskId (execution st) = tid then Some (execution st) else first_for_task tid sts)"

definition getExecutionByTaskId :: "TaskQueue \<Rightarrow> string \<Rightarrow> TaskExecution option" where
  "getExecutionByTaskId q tid = first_for_task tid (map_values (executions q))"

definition getActiveExecutions :: "TaskQueue \<Rightarrow> TaskExecution list" where
  "getActiveExecutions q =
     map execution (filter (\<lambda>st. exec_status (execution st) = Running) (map_values (executions q)))"

definition getExecutionLogs :: "TaskQueue \<Rightarrow> string \<Rightarrow> ExecutionLog list" where
  "getExecutionLogs q eid =
     (case map_get (executions q) eid of Some st \<Rightarrow> state_logs st | None \<Rightarrow> [])"

text \<open>
  \<open>cleanup\<close>. The comparator reads \<open>completedAt!\<close>; a completed or failed execution
  always carries it (\<open>completeExecution\<close> and \<open>failExecution\<close> set both together), and
  for a missing one \<open>getTime()\<close> would be \<open>NaN\<close>, where the order of \<open>sort\<close> is
  implementation-defined: the model reads 0 there and the theorems assume it away.
  \<open>keepLast\<close> is a natural number: the loop index starts from it.
\<close>

definition completed_time :: "ExecutionState \<Rightarrow> int" where
  "completed_time st = (case completedAt (execution st) of Some t \<Rightarrow> t | None \<Rightarrow> 0)"

definition cleanup_compare :: "string \<times> ExecutionState \<Rightarrow> string \<times> ExecutionState \<Rightarrow> int" where
  "cleanup_compare a b = completed_time (snd b) - completed_time (snd a)"

text \<open>The callback of \<open>filter\<close> in \<open>cleanup\<close>: completed or failed.\<close>

definition cleanup_candidate :: "string \<times> ExecutionState \<Rightarrow> bool" where
  "cleanup_candidate e =
     (exec_status (execution (snd e)) = Completed \<or> exec_status (execution (snd e)) = Failed)"

definition cleanup_states :: "TaskQueue \<Rightarrow> (string \<times> ExecutionState) list" where
  "cleanup_states q = js_sort cleanup_compare (filter cleanup_candidate (executions q))"

text \<open>
  The loop \<open>for (let i = keepLast; i < states.length; i++)\<close> deletes the key of
  \<open>states[i]\<close> and counts it.
\<close>

fun cleanup_loop :: "string list \<Rightarrow> nat \<times> (string, ExecutionState) jsmap \<Rightarrow> nat \<times> (string, ExecutionState) jsmap" where
  "cleanup_loop [] acc = acc"
| "cleanup_loop (k # ks) (removed, m) = cleanup_loop ks (removed + 1, map_delete k m)"

definition cleanup :: "nat \<Rightarrow> TaskQueue \<Rightarrow> nat \<times> TaskQueue" where
  "cleanup keepLast q =
     (let states = cleanup_states q;
          r = cleanup_loop (map fst (drop keepLast states)) (0, executions q)
      in (fst r, q\<lparr> executions := snd r \<rparr>))"

subsection \<open>Sync\<close>

fun syncFromTasks_loop :: "int \<Rightarrow> string list \<Rightarrow> Task list \<Rightarrow> TaskQueue \<Rightarrow> TaskQueue" where
  "syncFromTasks_loop now executingTaskIds [] q = q"
| "syncFromTasks_loop now executingTaskIds (t # ts) q =
     syncFromTasks_loop now executingTaskIds ts
       (if task_status t = Backlog \<and> \<not> has q (task_id t) \<and> task_id t \<notin> set executingTaskIds
        then enqueue now t None q else q)"

definition syncFromTasks :: "int \<Rightarrow> Task list \<Rightarrow> TaskQueue \<Rightarrow> TaskQueue" where
  "syncFromTasks now ts q = syncFromTasks_loop now (map taskId (getActiveExecutions q)) ts q"

subsection \<open>Eligibility as the specification words it\<close>

text \<open>
  The specification calls an entry eligible when its attempt count is 0, or the time
  since its last attempt is at least the retry delay. \<open>retry_ready\<close> above is the
  callback of the code; the two agree on every entry that records the time of its
  attempts, which \<open>markAttempt\<close>, the only writer of \<open>attempts\<close>, always does.
\<close>

definition eligible :: "int \<Rightarrow> int \<Rightarrow> QueuedTask \<Rightarrow> bool" where
  "eligible now delay qt =
     (attempts qt = 0
      \<or> (case lastAttempt qt of Some la \<Rightarrow> delay \<le> now - la | None \<Rightarrow> False))"

definition attempts_recorded :: "TaskQueue \<Rightarrow> bool" where
  "attempts_recorded q =
     list_all (\<lambda>qt. 0 < attempts qt \<longrightarrow> lastAttempt qt \<noteq> None) (map_values (queue q))"

subsection \<open>Example data\<close>

definition example_task :: "string \<Rightarrow> int option \<Rightarrow> Task" where
  "example_task i p =
     \<lparr> task_id = i, task_squad_id = ''squad'', titulo = i, descricao = None,
       task_status = Backlog, motivo_bloqueio = None, assigned_agent_id = None,
       task_priority = p, task_created_at = ''2024-01-01'', task_updated_at = ''2024-01-01'' \<rparr>"

text \<open>
  Three tasks are enqueued at times 10, 20 and 30; the one with the highest priority
  was attempted at time 9000.
\<close>

definition example_queue :: TaskQueue where
  "example_queue =
     markAttempt 9000 ''t1''
       (enqueue 30 (example_task ''t3'' (Some 1)) None
         (enqueue 20 (example_task ''t2'' (Some 1)) None
           (enqueue 10 (example_task ''t1'' (Some 5)) None
             (new_TaskQueue None None))))"

subsection \<open>Well-formed ledgers\<close>

text \<open>
  The keys of a \<open>Map\<close> are distinct, and an execution that is completed or failed
  carries its completion time: \<open>completeExecution\<close> and \<open>failExecution\<close> write the
  status and \<open>completedAt\<close> together, and nothing removes \<open>completedAt\<close>.
\<close>

definition completed_recorded :: "string \<times> ExecutionState \<Rightarrow> bool" where
  "completed_recorded e = (cleanup_candidate e \<longrightarrow> completedAt (execution (snd e)) \<noteq> None)"

definition ledger_wf :: "TaskQueue \<Rightarrow> bool" where
  "ledger_wf q =
     (distinct (map fst (executions q)) \<and> list_all completed_recorded (executions q))"

text \<open>
  Four executions start at times 100 to 400; three of them end at times 500, 600 and
  700, and the last is still running.
\<close>

definition example_ledger :: TaskQueue where
  "example_ledger =
     snd (completeExecution 700 ''exec_c_300'' None
       (snd (failExecution 600 ''exec_b_200'' ''boom''
         (snd (completeExecution 500 ''exec_a_100'' None
           (snd (startExecution 400 ''d'' ''agent2''
             (snd (startExecution 300 ''c'' ''agent1''
               (snd (startExecution 200 ''b'' ''agent2''
                 (snd (startExecution 100 ''a'' ''agent1''
                   (new_TaskQueue None None))))))))))))))"

section \<open>JavaScript strings and numbers\<close>

text \<open>
  A string is a list of characters. The functions below are the built-in methods the
  squad modules call, on ASCII text: case mapping and white space beyond ASCII are not
  modelled.
\<close>

definition is_digit :: "char \<Rightarrow> bool" where
  "is_digit c = (48 \<le> (of_char c :: nat) \<and> (of_char c :: nat) \<le> 57)"

definition digit_value :: "char \<Rightarrow> nat" where
  "digit_value c = (of_char c :: nat) - 48"

definition is_space :: "char \<Rightarrow> bool" where
  "is_space c = ((of_char c :: nat) = 32 \<or> (9 \<le> (of_char c :: nat) \<and> (of_char c :: nat) \<le> 13))"

definition toLowerCase :: "string \<Rightarrow> string" where
  "toLowerCase s =
     map (\<lambda>c. if 65 \<le> (of_char c :: nat) \<and> (of_char c :: nat) \<le> 90
               then char_of ((of_char c :: nat) + 32) else c) s"

definition trimStart :: "string \<Rightarrow> string" where
  "trimStart s = dropWhile is_space s"


fun startsWith :: "string \<Rightarrow> string \<Rightarrow> bool" where
  "startsWith s [] = True"
| "startsWith [] (p # ps) = False"
| "startsWith (c # cs) (p # ps) = (c = p \<and> startsWith cs ps)"


text \<open>\<open>indexOf\<close>: the position of the first occurrence, \<open>None\<close> for -1.\<close>

fun indexOf :: "string \<Rightarrow> string \<Rightarrow> nat option" where
  "indexOf [] p = (if p = [] then Some 0 else None)"
| "indexOf (c # cs) p =
     (if startsWith (c # cs) p then Some 0 else map_option Suc (indexOf cs p))"

definition includes_str :: "string \<Rightarrow> string \<Rightarrow> bool" where
  "includes_str s p = (indexOf s p \<noteq> None)"

text \<open>
  \<open>split(sep)\<close> with a string separator. \<open>skip\<close> counts the characters of a separator
  that was just matched and is still to be passed over; \<open>acc\<close> holds the current piece,
  reversed. With the empty separator the string splits into its characters.
\<close>

fun split_scan :: "string \<Rightarrow> nat \<Rightarrow> string \<Rightarrow> string \<Rightarrow> string list" where
  "split_scan sep skip acc [] = [rev acc]"
| "split_scan sep skip acc (c # cs) =
     (if skip > 0 then split_scan sep (skip - 1) acc cs
      else if startsWith (c # cs) sep then rev acc # split_scan sep (length sep - 1) [] cs
      else split_scan sep 0 (c # acc) cs)"

definition split :: "string \<Rightarrow> string \<Rightarrow> string list" where
  "split s sep = (if sep = [] then map (\<lambda>c. [c]) s else split_scan sep 0 [] s)"

text \<open>\<open>join(sep)\<close> on an array of strings.\<close>

fun join :: "string \<Rightarrow> string list \<Rightarrow> string" where
  "join sep [] = []"
| "join sep [x] = x"
| "join sep (x # y # ys) = x @ sep @ join sep (y # ys)"

text \<open>
  Numbers: \<open>NaN\<close> compares false with everything; the infinities bound the rationals.
\<close>

fun num_less :: "jsnum \<Rightarrow> jsnum \<Rightarrow> bool" where
  "num_less NaN b = False"
| "num_less a NaN = False"
| "num_less a NegInfinity = False"
| "num_less NegInfinity b = True"
| "num_less PosInfinity b = False"
| "num_less (Fin x) PosInfinity = True"
| "num_less (Fin x) (Fin y) = (x < y)"

definition num_greater :: "jsnum \<Rightarrow> jsnum \<Rightarrow> bool" where
  "num_greater a b = num_less b a"



definition num_negate :: "jsnum \<Rightarrow> jsnum" where
  "num_negate a =
     (case a of NaN \<Rightarrow> NaN | NegInfinity \<Rightarrow> PosInfinity
      | PosInfinity \<Rightarrow> NegInfinity | Fin x \<Rightarrow> Fin (- x))"

text \<open>
  Numeric literals. \<open>digits_value\<close> reads a string of digits in a base;
  \<open>parse_exponent\<close> reads an optional \<open>e\<close> part and gives the exponent and the rest;
  \<open>parse_unsigned\<close> reads the longest prefix that is an unsigned decimal literal
  (\<open>Infinity\<close>, \<open>12\<close>, \<open>12.\<close>, \<open>12.5\<close>, \<open>.5\<close>, each with an optional exponent).
\<close>

definition hex_value :: "char \<Rightarrow> nat option" where
  "hex_value c =
     (let n = (of_char c :: nat) in
      if 48 \<le> n \<and> n \<le> 57 then Some (n - 48)
      else if 97 \<le> n \<and> n \<le> 102 then Some (n - 87)
      else if 65 \<le> n \<and> n \<le> 70 then Some (n - 55)
      else None)"

definition digits_value :: "nat \<Rightarrow> string \<Rightarrow> nat" where
  "digits_value base ds = foldl (\<lambda>acc c. base * acc + (case hex_value c of Some d \<Rightarrow> d | None \<Rightarrow> 0)) 0 ds"


definition parse_exponent :: "string \<Rightarrow> int \<times> string" where
  "parse_exponent r =
     (case r of
        [] \<Rightarrow> (0, r)
      | c # cs \<Rightarrow>
          if c = CHR ''e'' \<or> c = CHR ''E'' then
            (let (neg, ds) =
                   (case cs of
                      [] \<Rightarrow> (False, cs)
                    | s # rest \<Rightarrow>
                        if s = CHR ''-'' then (True, rest)
                        else if s = CHR ''+'' then (False, rest)
                        else (False, cs));
                 ed = takeWhile is_digit ds
             in if ed = [] then (0, r)
                else ((if neg then - int (digits_value 10 ed) else int (digits_value 10 ed)),
                      dropWhile is_digit ds))
          else (0, r))"

definition scale10 :: "rat \<Rightarrow> int \<Rightarrow> rat" where
  "scale10 x e = (if e < 0 then x / 10 ^ nat (- e) else x * 10 ^ nat e)"

definition parse_unsigned :: "string \<Rightarrow> (jsnum \<times> string) option" where
  "parse_unsigned s =
     (if startsWith s ''Infinity'' then Some (PosInfinity, drop 8 s)
      else
        (let ip = takeWhile is_digit s; r1 = dropWhile is_digit s in
         case r1 of
           [] \<Rightarrow> (if ip = [] then None else Some (Fin (of_nat (digits_value 10 ip)), []))
         | c # cs \<Rightarrow>
             if c = CHR ''.'' then
               (let fp = takeWhile is_digit cs; r2 = dropWhile is_digit cs in
                if ip = [] \<and> fp = [] then None
                else
                  (let m = of_nat (digits_value 10 ip)
                           + of_nat (digits_value 10 fp) / 10 ^ length fp;
                       (e, r3) = parse_exponent r2
                   in Some (Fin (scale10 m e), r3)))
             else if ip = [] then None
             else
               (let (e, r3) = parse_exponent r1
                in Some (Fin (scale10 (of_nat (digits_value 10 ip)) e), r3))))"

definition parse_signed :: "string \<Rightarrow> (jsnum \<times> string) option" where
  "parse_signed s =
     (case s of
        [] \<Rightarrow> None
      | c # cs \<Rightarrow>
          if c = CHR ''-'' then map_option (\<lambda>(v, r). (num_negate v, r)) (parse_unsigned cs)
          else if c = CHR ''+'' then parse_unsigned cs
          else parse_unsigned s)"

text \<open>\<open>parseFloat\<close>: leading white space, then the longest numeric prefix.\<close>

definition parseFloat :: "string \<Rightarrow> jsnum" where
  "parseFloat s = (case parse_signed (trimStart s) of Some (v, r) \<Rightarrow> v | None \<Rightarrow> NaN)"


section \<open>Agent profiles\<close>

record BlockTrigger =
  condition :: string
  message :: string
  notifyChannel :: "string option"
  requiresApproval :: "bool option"

record AgentRules =
  allowedTaskTypes :: "string list option"
  forbiddenActions :: "string list option"
  mustAskBefore :: "string list option"
  autoComplete :: "bool option"
  maxTasksPerDay :: "int option"

record AgentLimiters =
  maxTokensPerTask :: "int option"
  maxApiCallsPerTask :: "int option"
  maxDurationMinutes :: "int option"
  cooldownMinutes :: "int option"
  limit_maxRetries :: "int option"

record Agente =
  agente_id :: string
  agente_squad_id :: string
  nome :: string
  tipo :: "string option"
  soul :: "string option"
  regras :: "AgentRules option"
  limitadores :: "AgentLimiters option"
  gatilhos_bloqueio :: "BlockTrigger list option"
  ativo :: bool
  agente_created_at :: string
  agente_updated_at :: string

record AgentMetrics =
  tasksCompleted :: nat
  tasksFailed :: nat
  tasksBlocked :: nat
  averageTaskDuration :: rat
  tokensUsed :: nat

record AgentInstance =
  instance_id :: string
  agente :: Agente
  agent_status :: AgentStatus
  currentTask :: "Task option"
  lastActivity :: "int option"
  metrics :: AgentMetrics

section \<open>persona.ts: PersonaManager\<close>

text \<open>The class \<open>PersonaManager\<close> (src/unnamed/part_001, from line 216).\<close>

text \<open>
  Truthiness of optional fields: a string counts when it is present and not empty, an
  array \<open>xs?.length\<close> when it is present and not empty, a number when it is present
  and not 0. The numbers of a profile are integers.
\<close>

definition truthy_string :: "string option \<Rightarrow> bool" where
  "truthy_string s = (case s of Some t \<Rightarrow> t \<noteq> [] | None \<Rightarrow> False)"

definition has_length :: "'a list option \<Rightarrow> bool" where
  "has_length xs = (case xs of Some ys \<Rightarrow> length ys \<noteq> 0 | None \<Rightarrow> False)"

definition truthy_number :: "int option \<Rightarrow> bool" where
  "truthy_number n = (case n of Some k \<Rightarrow> k \<noteq> 0 | None \<Rightarrow> False)"

definition or_empty :: "'a list option \<Rightarrow> 'a list" where
  "or_empty xs = (case xs of Some ys \<Rightarrow> ys | None \<Rightarrow> [])"

definition or_nil :: "string option \<Rightarrow> string" where
  "or_nil s = (case s of Some t \<Rightarrow> t | None \<Rightarrow> [])"

definition or_zero :: "int option \<Rightarrow> int" where
  "or_zero n = (case n of Some k \<Rightarrow> k | None \<Rightarrow> 0)"

record PromptContext =
  taskTitle :: "string option"
  taskDescription :: "string option"

text \<open>\<open>parts.push(x)\<close>.\<close>

definition push :: "'a \<Rightarrow> 'a list \<Rightarrow> 'a list" where
  "push x parts = parts @ [x]"

text \<open>The \<open>for\<close> loop over the block triggers in \<open>buildSystemPrompt\<close>.\<close>

fun push_triggers :: "BlockTrigger list \<Rightarrow> string list \<Rightarrow> string list" where
  "push_triggers [] parts = parts"
| "push_triggers (trigger # rest) parts = push_triggers rest (push (''- '' @ message trigger) parts)"

text \<open>
  The five blocks of \<open>buildSystemPrompt\<close>, in the order of the source; each takes the
  array \<open>parts\<close> as it stands and returns it with its own lines pushed.
\<close>

definition push_soul :: "Agente \<Rightarrow> string list \<Rightarrow> string list" where
  "push_soul ag parts =
     (if truthy_string (soul ag) then push (or_nil (soul ag)) parts else parts)"

definition push_rules :: "Agente \<Rightarrow> string list \<Rightarrow> string list" where
  "push_rules ag parts =
     (case regras ag of
        None \<Rightarrow> parts
      | Some r \<Rightarrow>
          (let p0 = push ''\<newline>## Rules and Guidelines'' parts;
               p1 = (if has_length (allowedTaskTypes r)
                     then push (''- You are specialized in: ''
                                @ join '', '' (or_empty (allowedTaskTypes r))) p0
                     else p0);
               p2 = (if has_length (forbiddenActions r)
                     then push (''- You must NEVER: ''
                                @ join '', '' (or_empty (forbiddenActions r))) p1
                     else p1);
               p3 = (if has_length (mustAskBefore r)
                     then push (''- You must ASK FOR APPROVAL before: ''
                                @ join '', '' (or_empty (mustAskBefore r))) p2
                     else p2)
           in if autoComplete r = Some True
              then push ''- You should complete tasks autonomously when possible'' p3
              else push ''- You should ask for confirmation before completing tasks'' p3))"

definition push_limiters :: "Agente \<Rightarrow> string list \<Rightarrow> string list" where
  "push_limiters ag parts =
     (case limitadores ag of
        None \<Rightarrow> parts
      | Some l \<Rightarrow>
          (let p0 = push ''\<newline>## Constraints'' parts;
               p1 = (if truthy_number (maxDurationMinutes l)
                     then push (''- Maximum task duration: ''
                                @ string_of_int (or_zero (maxDurationMinutes l))
                                @ '' minutes'') p0
                     else p0)
           in if truthy_number (limit_maxRetries l)
              then push (''- Maximum retry attempts: ''
                         @ string_of_int (or_zero (limit_maxRetries l))) p1
              else p1))"

definition push_block_triggers :: "Agente \<Rightarrow> string list \<Rightarrow> string list" where
  "push_block_triggers ag parts =
     (if has_length (gatilhos_bloqueio ag)
      then push_triggers (or_empty (gatilhos_bloqueio ag))
             (push ''\<newline>## When to Stop and Ask'' parts)
      else parts)"

definition push_task_context :: "PromptContext option \<Rightarrow> string list \<Rightarrow> string list" where
  "push_task_context ctx parts =
     (case ctx of
        None \<Rightarrow> parts
      | Some c \<Rightarrow>
          if truthy_string (taskTitle c) \<or> truthy_string (taskDescription c) then
            (let p0 = push ''\<newline>## Current Task'' parts;
                 p1 = (if truthy_string (taskTitle c)
                       then push (''**Title:** '' @ or_nil (taskTitle c)) p0 else p0)
             in if truthy_string (taskDescription c)
                then push (''**Description:** '' @ or_nil (taskDescription c)) p1
                else p1)
          else parts)"

definition buildSystemPrompt :: "Agente \<Rightarrow> PromptContext option \<Rightarrow> string" where
  "buildSystemPrompt ag ctx =
     (let parts0 = [];
          parts1 = push_soul ag parts0;
          parts2 = push_rules ag parts1;
          parts3 = push_limiters ag parts2;
          parts4 = push_block_triggers ag parts3;
          parts5 = push_task_context ctx parts4
      in join ''\<newline>'' parts5)"

text \<open>
  \<open>condition.match(/[\<bslash>d.]+/)?.[0]\<close>: the first maximal run of digits and dots in the
  text, if there is one.
\<close>

definition is_digit_or_dot :: "char \<Rightarrow> bool" where
  "is_digit_or_dot c = (is_digit c \<or> c = CHR ''.'')"

definition match_digits_dots :: "string \<Rightarrow> string option" where
  "match_digits_dots s =
     (let r = dropWhile (\<lambda>c. \<not> is_digit_or_dot c) s in
      if r = [] then None else Some (takeWhile is_digit_or_dot r))"

record TriggerSignals =
  uncertainty :: "jsnum option"
  requiresExternalAccess :: "bool option"
  isDestructive :: "bool option"
  estimatedCost :: "jsnum option"
  costLimit :: "jsnum option"

text \<open>\<open>parseFloat(condition.match(/[\<bslash>d.]+/)?.[0] || '0.8')\<close>.\<close>

definition uncertainty_threshold :: "string \<Rightarrow> jsnum" where
  "uncertainty_threshold cond =
     parseFloat (case match_digits_dots cond of
                   Some m \<Rightarrow> if m \<noteq> [] then m else ''0.8''
                 | None \<Rightarrow> ''0.8'')"

text \<open>The body of the loop of \<open>checkBlockTriggers\<close>: does one of its four tests return
  the trigger?\<close>

definition trigger_fires :: "TriggerSignals \<Rightarrow> BlockTrigger \<Rightarrow> bool" where
  "trigger_fires ctx trigger =
     (let cond = toLowerCase (condition trigger) in
      (includes_str cond ''uncertainty''
         \<and> (case uncertainty ctx of
               Some u \<Rightarrow> num_greater u (uncertainty_threshold cond)
             | None \<Rightarrow> False))
      \<or> (includes_str cond ''external_access'' \<and> requiresExternalAccess ctx = Some True)
      \<or> (includes_str cond ''destructive'' \<and> isDestructive ctx = Some True)
      \<or> (includes_str cond ''cost''
           \<and> (case estimatedCost ctx of
                 Some c \<Rightarrow> (case costLimit ctx of
                               Some l \<Rightarrow> num_greater c l
                             | None \<Rightarrow> False)
               | None \<Rightarrow> False)))"

fun checkBlockTriggers_loop :: "TriggerSignals \<Rightarrow> BlockTrigger list \<Rightarrow> BlockTrigger option" where
  "checkBlockTriggers_loop ctx [] = None"
| "checkBlockTriggers_loop ctx (trigger # rest) =
     (if trigger_fires ctx trigger then Some trigger
      else checkBlockTriggers_loop ctx rest)"

definition checkBlockTriggers :: "Agente \<Rightarrow> TriggerSignals \<Rightarrow> BlockTrigger option" where
  "checkBlockTriggers ag ctx =
     (if \<not> has_length (gatilhos_bloqueio ag) then None
      else checkBlockTriggers_loop ctx (or_empty (gatilhos_bloqueio ag)))"

text \<open>The registry of personas: \<open>register\<close> and \<open>unregister\<close>.\<close>

type_synonym PersonaManager = "(string, Agente) jsmap"

definition register :: "Agente \<Rightarrow> PersonaManager \<Rightarrow> PersonaManager" where
  "register ag ps = map_set (agente_id ag) ag ps"

definition unregister :: "string \<Rightarrow> PersonaManager \<Rightarrow> bool \<times> PersonaManager" where
  "unregister aid ps = (map_has ps aid, map_delete aid ps)"

section \<open>orchestrator.ts: AgentOrchestrator\<close>

text \<open>
  The class \<open>AgentOrchestrator\<close> (src/src/squad/orchestrator.ts, lines 30 to 576).
  The store and the notification service are outside the repository's core. The model
  answers \<open>getTask\<close> from the rows the store holds and records every write request and
  every notification in the order they are sent.
\<close>

datatype MessageType = Resposta | Pergunta | Bloqueio | Entrega

datatype StoreWrite =
    AssignTask string string
  | UpdateTaskStatus string TaskStatus "string option"
  | CreateMensagem string "string option" string MessageType

record SupabaseClient =
  store_tasks :: "(string, Task) jsmap"
  store_writes :: "StoreWrite list"

datatype NotificationEvent =
    Task_started | Task_completed | Task_blocked | Task_unblocked | Task_assigned
  | Agent_activated | Agent_deactivated | Execution_error | Workflow_started
  | Workflow_completed

record NotificationRequest =
  note_squad :: string
  note_event :: NotificationEvent
  note_task :: "string option"
  note_agent :: "string option"

text \<open>
  \<open>executeTask\<close> starts \<open>runTaskExecution\<close> without awaiting it; \<open>launched\<close> records
  each start (agent, task, execution).
\<close>

record AgentOrchestrator =
  supabase :: SupabaseClient
  taskQueue :: TaskQueue
  personas :: PersonaManager
  agents :: "(string, AgentInstance) jsmap"
  isRunning :: bool
  notified :: "NotificationRequest list"
  launched :: "(string \<times> string \<times> string) list"

record ExecuteTaskRequest =
  req_taskId :: string
  req_agentId :: "string option"
  req_priority :: "int option"
  req_context :: "(string \<times> jsval) list option"

record ExecuteTaskResponse =
  executionId :: string
  resp_taskId :: string
  resp_agentId :: string
  resp_status :: ExecutionStatus

record TaskProgress =
  tp_taskId :: string
  tp_agentId :: string
  tp_status :: ExecutionStatus
  tp_progress :: int
  tp_message :: "string option"
  tp_timestamp :: int

text \<open>
  The three \<open>throw new Error(...)\<close> of \<open>executeTask\<close>, by their messages:
  \<open>Task <id> not found\<close>, \<open>Agent <id> not found or not registered\<close> and
  \<open>No available agent to handle this task\<close>.
\<close>

datatype OrchError = TaskNotFound string | AgentNotFound string | NoAvailableAgent

definition registerAgent :: "Agente \<Rightarrow> AgentOrchestrator \<Rightarrow> AgentInstance \<times> AgentOrchestrator" where
  "registerAgent ag orch =
     (let inst = \<lparr> instance_id = agente_id ag, agente = ag, agent_status = Idle,
                    currentTask = None, lastActivity = None,
                    metrics = \<lparr> tasksCompleted = 0, tasksFailed = 0, tasksBlocked = 0,
                                averageTaskDuration = 0, tokensUsed = 0 \<rparr> \<rparr>
      in (inst, orch\<lparr> agents := map_set (agente_id ag) inst (agents orch),
                      personas := register ag (personas orch) \<rparr>))"

definition unregisterAgent :: "string \<Rightarrow> AgentOrchestrator \<Rightarrow> bool \<times> AgentOrchestrator" where
  "unregisterAgent aid orch =
     (map_has (agents orch) aid,
      orch\<lparr> agents := map_delete aid (agents orch),
            personas := snd (unregister aid (personas orch)) \<rparr>)"

subsection \<open>Agent selection\<close>

text \<open>The callback of \<open>filter\<close> in \<open>selectAgent\<close> and \<open>getAvailableAgents\<close>.\<close>

definition available :: "AgentInstance \<Rightarrow> bool" where
  "available a = (agent_status a = Idle \<and> ativo (agente a))"

definition getAvailableAgents :: "AgentOrchestrator \<Rightarrow> AgentInstance list" where
  "getAvailableAgents orch = filter available (map_values (agents orch))"

text \<open>
  The callback of \<open>map\<close> in \<open>selectAgent\<close>. Scores are exact rationals: the rounding
  of the 64-bit arithmetic is not modelled.
\<close>

definition agent_score :: "AgentInstance \<Rightarrow> rat" where
  "agent_score a =
     (let score0 = 0;
          score1 = score0 - of_nat (tasksCompleted (metrics a)) * (1 / 10);
          totalTasks = tasksCompleted (metrics a) + tasksFailed (metrics a);
          score2 = (if totalTasks > 0
                    then (let successRate = of_nat (tasksCompleted (metrics a)) / of_nat totalTasks
                          in score1 + successRate * 10)
                    else score1);
          score3 = (if averageTaskDuration (metrics a) > 0
                    then score2 - averageTaskDuration (metrics a) / 60000
                    else score2)
      in score3)"

definition selectAgent :: "Task \<Rightarrow> AgentOrchestrator \<Rightarrow> AgentInstance option" where
  "selectAgent t orch =
     (let availableAgents = filter available (map_values (agents orch)) in
      if length availableAgents = 0 then None
      else
        (let scored = map (\<lambda>a. (a, agent_score a)) availableAgents;
             sorted = js_sort (\<lambda>a b. snd b - snd a) scored
         in case sorted of [] \<Rightarrow> None | best # _ \<Rightarrow> Some (fst best)))"

subsection \<open>Task execution\<close>

text \<open>
  \<open>executeTask\<close> up to the point where it returns its handle. \<open>if (agentId)\<close> takes
  the explicit branch for an id that is present and not the empty string. The selected
  agent is an object of the pool, changed in place; the pool holds every instance under
  its own id (\<open>registerAgent\<close> is the only writer), so the change is a write under that id.
\<close>

definition executeTask ::
    "int \<Rightarrow> ExecuteTaskRequest \<Rightarrow> AgentOrchestrator
       \<Rightarrow> (OrchError + ExecuteTaskResponse) \<times> AgentOrchestrator" where
  "executeTask now req orch =
     (case map_get (store_tasks (supabase orch)) (req_taskId req) of
        None \<Rightarrow> (Inl (TaskNotFound (req_taskId req)), orch)
      | Some t0 \<Rightarrow>
          (let selected =
                 (if truthy_string (req_agentId req) then
                    (case map_get (agents orch) (or_nil (req_agentId req)) of
                       None \<Rightarrow> Inl (AgentNotFound (or_nil (req_agentId req)))
                     | Some a \<Rightarrow> Inr a)
                  else
                    (case selectAgent t0 orch of
                       None \<Rightarrow> Inl NoAvailableAgent
                     | Some a \<Rightarrow> Inr a))
           in case selected of
                Inl e \<Rightarrow> (Inl e, orch)
              | Inr selectedAgent \<Rightarrow>
                  (let t1 = (case req_priority req of
                               Some p \<Rightarrow> t0\<lparr> task_priority := Some p \<rparr>
                             | None \<Rightarrow> t0);
                       started = startExecution now (task_id t1) (instance_id selectedAgent)
                                   (taskQueue orch);
                       working = selectedAgent\<lparr> agent_status := Working,
                                                 currentTask := Some t1,
                                                 lastActivity := Some now \<rparr>
                   in (Inr \<lparr> executionId = exec_id (fst started),
                             resp_taskId = task_id t1,
                             resp_agentId = instance_id selectedAgent,
                             resp_status = exec_status (fst started) \<rparr>,
                       orch\<lparr> taskQueue := snd started,
                             agents := map_set (instance_id selectedAgent) working (agents orch),
                             supabase := (supabase orch)
                               \<lparr> store_writes := store_writes (supabase orch)
                                    @ [AssignTask (task_id t1) (instance_id selectedAgent)] \<rparr>,
                             notified := notified orch
                               @ [\<lparr> note_squad = task_squad_id t1, note_event = Task_assigned,
                                     note_task = Some (task_id t1),
                                     note_agent = Some (agente_id (agente selectedAgent)) \<rparr>],
                             launched := launched orch
                               @ [(instance_id selectedAgent, task_id t1, exec_id (fst started))]
                           \<rparr>))))"

definition pauseTask :: "int \<Rightarrow> string \<Rightarrow> AgentOrchestrator \<Rightarrow> bool \<times> AgentOrchestrator" where
  "pauseTask now tid orch =
     (case getExecutionByTaskId (taskQueue orch) tid of
        None \<Rightarrow> (False, orch)
      | Some e \<Rightarrow>
          if exec_status e \<noteq> Running then (False, orch)
          else
            (let q1 = snd (blockExecution now (exec_id e) ''Paused by user'' (taskQueue orch));
                 s1 = (supabase orch)
                        \<lparr> store_writes := store_writes (supabase orch)
                             @ [UpdateTaskStatus tid Bloqueado (Some ''Paused by user'')] \<rparr>;
                 ags = (case map_get (agents orch) (agentId e) of
                          Some a \<Rightarrow> map_set (agentId e)
                                      (a\<lparr> agent_status := Idle, currentTask := None \<rparr>)
                                      (agents orch)
                        | None \<Rightarrow> agents orch)
             in (True, orch\<lparr> taskQueue := q1, supabase := s1, agents := ags \<rparr>)))"

text \<open>
  The body of \<open>processNextTask\<close>: when \<open>executeTask\<close> throws and the task can still
  retry, the attempt is marked and the task is enqueued again.
\<close>

definition processNextTask :: "int \<Rightarrow> AgentOrchestrator \<Rightarrow> AgentOrchestrator" where
  "processNextTask now orch =
     (if length (getAvailableAgents orch) = 0 then orch
      else
        (case getNext now (taskQueue orch) of
           None \<Rightarrow> orch
         | Some t \<Rightarrow>
             (case executeTask now
                     \<lparr> req_taskId = task_id t, req_agentId = None, req_priority = None,
                       req_context = None \<rparr> orch of
                (Inr r, orch1) \<Rightarrow> orch1
              | (Inl e, orch1) \<Rightarrow>
                  if canRetry (taskQueue orch1) (task_id t)
                  then orch1\<lparr> taskQueue :=
                         enqueue now t (task_priority t)
                           (markAttempt now (task_id t) (taskQueue orch1)) \<rparr>
                  else orch1)))"

subsection \<open>Status\<close>

definition getTaskProgress :: "int \<Rightarrow> AgentOrchestrator \<Rightarrow> string \<Rightarrow> TaskProgress option" where
  "getTaskProgress now orch tid =
     (case getExecutionByTaskId (taskQueue orch) tid of
        None \<Rightarrow> None
      | Some e \<Rightarrow>
          Some \<lparr> tp_taskId = taskId e, tp_agentId = agentId e, tp_status = exec_status e,
                 tp_progress = progress e,
                 tp_message = (if logs e = [] then None else Some (log_message (last (logs e)))),
                 tp_timestamp = now \<rparr>)"

definition updateAverageTaskDuration :: "AgentInstance \<Rightarrow> rat \<Rightarrow> AgentInstance" where
  "updateAverageTaskDuration a duration =
     (if tasksCompleted (metrics a) = 0
      then a\<lparr> metrics := (metrics a)\<lparr> averageTaskDuration := duration \<rparr> \<rparr>
      else a\<lparr> metrics := (metrics a)
             \<lparr> averageTaskDuration :=
                 (averageTaskDuration (metrics a) * (of_nat (tasksCompleted (metrics a)) - 1)
                  + duration) / of_nat (tasksCompleted (metrics a)) \<rparr> \<rparr>)"

subsection \<open>The score as the specification gives it\<close>

definition successRate :: "AgentInstance \<Rightarrow> rat" where
  "successRate a =
     (if tasksCompleted (metrics a) + tasksFailed (metrics a) = 0 then 0
      else of_nat (tasksCompleted (metrics a))
           / of_nat (tasksCompleted (metrics a) + tasksFailed (metrics a)))"


text \<open>
  The average duration of an agent is 0 at registration and afterwards an average of
  elapsed times, so it is never negative.
\<close>

definition durations_nonnegative :: "AgentOrchestrator \<Rightarrow> bool" where
  "durations_nonnegative orch =
     list_all (\<lambda>a. 0 \<le> averageTaskDuration (metrics a)) (map_values (agents orch))"

subsection \<open>Example data\<close>

definition example_agente :: "string \<Rightarrow> bool \<Rightarrow> Agente" where
  "example_agente i act =
     \<lparr> agente_id = i, agente_squad_id = ''squad'', nome = i, tipo = None, soul = None,
       regras = None, limitadores = None, gatilhos_bloqueio = None, ativo = act,
       agente_created_at = ''2024-01-01'', agente_updated_at = ''2024-01-01'' \<rparr>"

definition example_instance ::
    "string \<Rightarrow> bool \<Rightarrow> AgentStatus \<Rightarrow> nat \<Rightarrow> nat \<Rightarrow> rat \<Rightarrow> AgentInstance" where
  "example_instance i act st done failed avg =
     \<lparr> instance_id = i, agente = example_agente i act, agent_status = st,
       currentTask = None, lastActivity = None,
       metrics = \<lparr> tasksCompleted = done, tasksFailed = failed, tasksBlocked = 0,
                   averageTaskDuration = avg, tokensUsed = 0 \<rparr> \<rparr>"

text \<open>
  A pool of five: \<open>a1\<close> is working, \<open>a2\<close> and \<open>a3\<close> are idle and active with the same
  history, \<open>a4\<close> is idle and inactive, \<open>a5\<close> is idle and active with a worse history.
  The store holds the task \<open>t1\<close>.
\<close>

definition example_orchestrator :: AgentOrchestrator where
  "example_orchestrator =
     \<lparr> supabase = \<lparr> store_tasks = [(''t1'', example_task ''t1'' (Some 5))], store_writes = [] \<rparr>,
       taskQueue = enqueue 10 (example_task ''t1'' (Some 5)) None (new_TaskQueue None None),
       personas = [],
       agents =
         [ (''a1'', example_instance ''a1'' True Working 0 0 0),
           (''a2'', example_instance ''a2'' True Idle 2 0 60000),
           (''a3'', example_instance ''a3'' True Idle 2 0 60000),
           (''a4'', example_instance ''a4'' False Idle 0 0 0),
           (''a5'', example_instance ''a5'' True Idle 1 1 0) ],
       isRunning = False, notified = [], launched = [] \<rparr>"


text \<open>
  A ledger in which the task \<open>a\<close> was started at time 100, paused at 150 and started
  again at 200, and an orchestrator that owns it.
\<close>

definition example_resumed_ledger :: TaskQueue where
  "example_resumed_ledger =
     snd (startExecution 200 ''a'' ''agent2''
       (snd (blockExecution 150 ''exec_a_100'' ''Paused by user''
         (snd (startExecution 100 ''a'' ''agent1'' (new_TaskQueue None None))))))"

definition example_resumed_orchestrator :: AgentOrchestrator where
  "example_resumed_orchestrator = example_orchestrator\<lparr> taskQueue := example_resumed_ledger \<rparr>"

subsection \<open>Ledgers in order of creation\<close>

text \<open>
  \<open>startExecution\<close> appends to the ledger with the current time as \<open>startedAt\<close>, so
  with a clock that does not run backwards the ledger lists executions by creation time.
\<close>

definition ledger_chronological :: "TaskQueue \<Rightarrow> bool" where
  "ledger_chronological q = sorted (map (\<lambda>st. startedAt (execution st)) (map_values (executions q)))"

section \<open>The sections of the system prompt\<close>

text \<open>
  What each block of \<open>buildSystemPrompt\<close> pushes, as a function of the one field the
  block reads: the persona narrative, the rules, the limiters, the block triggers and the
  task context.
\<close>

definition soul_part :: "string option \<Rightarrow> string list" where
  "soul_part s = (if truthy_string s then [or_nil s] else [])"

definition rules_section :: "AgentRules option \<Rightarrow> string list" where
  "rules_section rules =
     (case rules of
        None \<Rightarrow> []
      | Some r \<Rightarrow>
          [''\<newline>## Rules and Guidelines'']
          @ (if has_length (allowedTaskTypes r)
             then [''- You are specialized in: '' @ join '', '' (or_empty (allowedTaskTypes r))]
             else [])
          @ (if has_length (forbiddenActions r)
             then [''- You must NEVER: '' @ join '', '' (or_empty (forbiddenActions r))]
             else [])
          @ (if has_length (mustAskBefore r)
             then [''- You must ASK FOR APPROVAL before: ''
                   @ join '', '' (or_empty (mustAskBefore r))]
             else [])
          @ [if autoComplete r = Some True
             then ''- You should complete tasks autonomously when possible''
             else ''- You should ask for confirmation before completing tasks''])"

definition limiters_section :: "AgentLimiters option \<Rightarrow> string list" where
  "limiters_section limiters =
     (case limiters of
        None \<Rightarrow> []
      | Some l \<Rightarrow>
          [''\<newline>## Constraints'']
          @ (if truthy_number (maxDurationMinutes l)
             then [''- Maximum task duration: '' @ string_of_int (or_zero (maxDurationMinutes l))
                   @ '' minutes'']
             else [])
          @ (if truthy_number (limit_maxRetries l)
             then [''- Maximum retry attempts: '' @ string_of_int (or_zero (limit_maxRetries l))]
             else []))"

definition triggers_section :: "BlockTrigger list option \<Rightarrow> string list" where
  "triggers_section triggers =
     (if has_length triggers
      then ''\<newline>## When to Stop and Ask'' # map (\<lambda>t. ''- '' @ message t) (or_empty triggers)
      else [])"

definition context_section :: "PromptContext option \<Rightarrow> string list" where
  "context_section ctx =
     (case ctx of
        None \<Rightarrow> []
      | Some c \<Rightarrow>
          if truthy_string (taskTitle c) \<or> truthy_string (taskDescription c)
          then [''\<newline>## Current Task'']
               @ (if truthy_string (taskTitle c) then [''**Title:** '' @ or_nil (taskTitle c)] else [])
               @ (if truthy_string (taskDescription c)
                  then [''**Description:** '' @ or_nil (taskDescription c)] else [])
          else [])"

subsection \<open>The threshold as the specification words it\<close>

text \<open>
  The specification reads the threshold of an uncertainty trigger from a trailing
  floating-point literal of the condition text, 0.8 when there is none. The literal that
  ends a text is its longest suffix of digits and dots.
\<close>

definition trailing_literal :: "string \<Rightarrow> string option" where
  "trailing_literal s =
     (let r = rev (takeWhile is_digit_or_dot (rev s)) in if r = [] then None else Some r)"

definition claimed_threshold :: "string \<Rightarrow> jsnum" where
  "claimed_threshold cond =
     parseFloat (case trailing_literal cond of Some m \<Rightarrow> m | None \<Rightarrow> ''0.8'')"

subsection \<open>Example data\<close>

text \<open>\<open>DEFAULT_BLOCK_TRIGGERS\<close> of persona.ts.\<close>

definition DEFAULT_BLOCK_TRIGGERS :: "BlockTrigger list" where
  "DEFAULT_BLOCK_TRIGGERS =
     [ \<lparr> condition = ''uncertainty > 0.8'',
         message = ''High uncertainty - need clarification before proceeding'',
         notifyChannel = None, requiresApproval = Some True \<rparr>,
       \<lparr> condition = ''requires_external_access'',
         message = ''This task requires access to external systems'',
         notifyChannel = None, requiresApproval = Some True \<rparr>,
       \<lparr> condition = ''destructive_operation'',
         message = ''This operation could cause data loss'',
         notifyChannel = Some ''notifications'', requiresApproval = Some True \<rparr>,
       \<lparr> condition = ''cost_exceeds_limit'',
         message = ''Estimated cost exceeds configured limit'',
         notifyChannel = None, requiresApproval = Some True \<rparr> ]"

definition example_profile :: "string \<Rightarrow> BlockTrigger list \<Rightarrow> Agente" where
  "example_profile i triggers =
     \<lparr> agente_id = i, agente_squad_id = ''squad'', nome = i, tipo = Some ''developer'',
       soul = Some ''You are a careful developer.'',
       regras = Some \<lparr> allowedTaskTypes = Some [''code'', ''test''], forbiddenActions = None,
                       mustAskBefore = Some [''deploy''], autoComplete = Some False,
                       maxTasksPerDay = None \<rparr>,
       limitadores = Some \<lparr> maxTokensPerTask = None, maxApiCallsPerTask = None,
                            maxDurationMinutes = Some 15, cooldownMinutes = None,
                            limit_maxRetries = Some 3 \<rparr>,
       gatilhos_bloqueio = Some triggers, ativo = True,
       agente_created_at = ''2024-01-01'', agente_updated_at = ''2024-01-01'' \<rparr>"

text \<open>The signals of the cost scenario: estimated cost 100 against a limit of 50.\<close>

definition cost_signals :: TriggerSignals where
  "cost_signals =
     \<lparr> uncertainty = Some (Fin 0), requiresExternalAccess = Some False,
       isDestructive = Some False, estimatedCost = Some (Fin 100), costLimit = Some (Fin 50) \<rparr>"

text \<open>A trigger whose text holds a number before its threshold, and an uncertainty of 0.9.\<close>

definition numbered_trigger :: BlockTrigger where
  "numbered_trigger =
     \<lparr> condition = ''step 2: uncertainty > 0.5'', message = ''Too uncertain'',
       notifyChannel = None, requiresApproval = Some True \<rparr>"

definition uncertain_signals :: TriggerSignals where
  "uncertain_signals =
     \<lparr> uncertainty = Some (Fin (9 / 10)), requiresExternalAccess = None,
       isDestructive = None, estimatedCost = None, costLimit = None \<rparr>"

section \<open>JavaScript values in the workflow engine\<close>

text \<open>
  \<open>replace(pattern, replacement)\<close> with a string pattern replaces the first occurrence;
  in the replacement text \<open>$$\<close> stands for a dollar sign, \<open>$&\<close> for the matched text, and
  \<open>$\<close> followed by a backquote or a quote for the text before or after the match.
\<close>

fun expand_replacement :: "string \<Rightarrow> string \<Rightarrow> string \<Rightarrow> string \<Rightarrow> string" where
  "expand_replacement matched prefix suffix [] = []"
| "expand_replacement matched prefix suffix [c] = [c]"
| "expand_replacement matched prefix suffix (c # d # r) =
     (if c = CHR ''$'' \<and> d = CHR ''$'' then CHR ''$'' # expand_replacement matched prefix suffix r
      else if c = CHR ''$'' \<and> d = CHR ''&'' then matched @ expand_replacement matched prefix suffix r
      else if c = CHR ''$'' \<and> d = CHR 0x60 then prefix @ expand_replacement matched prefix suffix r
      else if c = CHR ''$'' \<and> d = CHR 0x27 then suffix @ expand_replacement matched prefix suffix r
      else c # expand_replacement matched prefix suffix (d # r))"

definition replace :: "string \<Rightarrow> string \<Rightarrow> string \<Rightarrow> string" where
  "replace s pat repl =
     (case indexOf s pat of
        None \<Rightarrow> s
      | Some i \<Rightarrow>
          take i s
          @ expand_replacement pat (take i s) (drop (i + length pat) s) repl
          @ drop (i + length pat) s)"



text \<open>
  Number to text. Integers print in decimal; other rationals print their integer part, a
  dot and up to 20 fractional digits. The exponent notation of very large and very small
  doubles is not modelled.
\<close>

fun fraction_digits :: "nat \<Rightarrow> rat \<Rightarrow> string" where
  "fraction_digits 0 r = []"
| "fraction_digits (Suc n) r =
     (if r = 0 then []
      else (let d = nat \<lfloor>r * 10\<rfloor>
            in char_of (48 + d) # fraction_digits n (r * 10 - of_nat d)))"

definition number_to_string :: "jsnum \<Rightarrow> string" where
  "number_to_string n =
     (case n of
        NaN \<Rightarrow> ''NaN''
      | PosInfinity \<Rightarrow> ''Infinity''
      | NegInfinity \<Rightarrow> ''-Infinity''
      | Fin r \<Rightarrow>
          (let a = \<bar>r\<bar>; whole = \<lfloor>a\<rfloor>; part = a - of_int whole
           in (if r < 0 then ''-'' else '''')
              @ string_of_int whole
              @ (if part = 0 then '''' else ''.'' @ fraction_digits 20 part)))"

text \<open>
  \<open>String(value)\<close>. An array prints its elements separated by commas, with nothing for
  \<open>null\<close> and \<open>undefined\<close>; an object prints as \<open>[object Object]\<close>.
\<close>

fun to_string :: "jsval \<Rightarrow> string" where
  "to_string JUndefined = ''undefined''"
| "to_string JNull = ''null''"
| "to_string (JBool b) = (if b then ''true'' else ''false'')"
| "to_string (JNum n) = number_to_string n"
| "to_string (JStr s) = s"
| "to_string (JArr xs) =
     join '','' (map (\<lambda>x. if x = JNull \<or> x = JUndefined then '''' else to_string x) xs)"
| "to_string (JObj ps) = ''[object Object]''"




text \<open>
  \<open>JSON.stringify(value)\<close>; \<open>None\<close> is its result \<open>undefined\<close>. Inside an array
  \<open>undefined\<close> prints as \<open>null\<close>; inside an object a property whose value is
  \<open>undefined\<close> is left out; \<open>NaN\<close> and the infinities print as \<open>null\<close>.
\<close>

definition hex_digit :: "nat \<Rightarrow> char" where
  "hex_digit d = (if d < 10 then char_of (48 + d) else char_of (87 + d))"

definition json_escape_char :: "char \<Rightarrow> string" where
  "json_escape_char c =
     (let n = (of_char c :: nat) in
      if c = CHR 0x22 then [CHR 0x5C, CHR 0x22]
      else if c = CHR 0x5C then [CHR 0x5C, CHR 0x5C]
      else if n = 8 then [CHR 0x5C, CHR ''b'']
      else if n = 9 then [CHR 0x5C, CHR ''t'']
      else if n = 10 then [CHR 0x5C, CHR ''n'']
      else if n = 12 then [CHR 0x5C, CHR ''f'']
      else if n = 13 then [CHR 0x5C, CHR ''r'']
      else if n < 32 then [CHR 0x5C, CHR ''u'', CHR ''0'', CHR ''0'', hex_digit (n div 16), hex_digit (n mod 16)]
      else [c])"

definition json_quote :: "string \<Rightarrow> string" where
  "json_quote s = [CHR 0x22] @ concat (map json_escape_char s) @ [CHR 0x22]"

fun json_text :: "jsval \<Rightarrow> string" where
  "json_text JUndefined = ''null''"
| "json_text JNull = ''null''"
| "json_text (JBool b) = (if b then ''true'' else ''false'')"
| "json_text (JNum n) = (case n of Fin r \<Rightarrow> number_to_string n | _ \<Rightarrow> ''null'')"
| "json_text (JStr s) = json_quote s"
| "json_text (JArr xs) = ''['' @ join '','' (map json_text xs) @ '']''"
| "json_text (JObj ps) =
     ''{'' @ join '','' (map (\<lambda>p. json_quote (fst p) @ '':'' @ json_text (snd p))
                          (filter (\<lambda>p. snd p \<noteq> JUndefined) ps)) @ ''}''"

definition JSON_stringify :: "jsval \<Rightarrow> string option" where
  "JSON_stringify v = (if v = JUndefined then None else Some (json_text v))"



section \<open>workflow-engine.ts: WorkflowEngine\<close>

text \<open>
  The step functions of the class \<open>WorkflowEngine\<close> (src/src/squad/workflow-engine.ts,
  lines 218 to 574) and the control transfer of its run loop (lines 160 to 199).
\<close>

record StepResult =
  success :: bool
  nextStepId :: "string option"
  step_error :: "string option"
  step_output :: jsval

record WorkflowContext =
  ctx_input :: "(string \<times> jsval) list"
  stepResults :: "(string \<times> jsval) list"

datatype NotifyChannel = Discord | Email | Webhook


record NotifyConfig =
  channel :: NotifyChannel
  target :: "string option"
  notify_message :: string
  embed :: "jsval option"

record AgentTaskConfig =
  agentType :: "string option"
  cfg_agentId :: "string option"
  action :: string
  cfg_input :: "(string \<times> jsval) list option"
  timeout :: "int option"

record ParallelConfig =
  parallel_steps :: "string list"
  waitAll :: "bool option"

record WaitConfig =
  duration :: "int option"
  until :: "string option"
  event :: "string option"




subsection \<open>Condition evaluation\<close>












subsection \<open>Notification\<close>

text \<open>
  The two interpolation loops of \<open>executeNotify\<close>, over \<open>Object.entries\<close> of the input
  and of the step results.
\<close>

fun interpolate_input :: "(string \<times> jsval) list \<Rightarrow> string \<Rightarrow> string" where
  "interpolate_input [] msg = msg"
| "interpolate_input ((key, v) # rest) msg =
     interpolate_input rest (replace msg (''{{'' @ key @ ''}}'') (to_string v))"

fun interpolate_results :: "(string \<times> jsval) list \<Rightarrow> string \<Rightarrow> string" where
  "interpolate_results [] msg = msg"
| "interpolate_results ((key, v) # rest) msg =
     interpolate_results rest
       (replace msg (''{{results.'' @ key @ ''}}'')
          (case JSON_stringify v of Some s \<Rightarrow> s | None \<Rightarrow> ''undefined''))"

record SendResult =
  send_success :: bool
  send_error :: "string option"

definition channel_name :: "NotifyChannel \<Rightarrow> string" where
  "channel_name c = (case c of Discord \<Rightarrow> ''discord'' | Email \<Rightarrow> ''email'' | Webhook \<Rightarrow> ''webhook'')"

text \<open>
  \<open>executeNotify\<close>. \<open>sendDiscordNotification\<close> is the notification collaborator: it
  catches its own errors and always answers with a result, here the function \<open>send\<close> of
  the target and the content.
\<close>

definition executeNotify ::
    "(string \<Rightarrow> string \<Rightarrow> SendResult) \<Rightarrow> NotifyConfig \<Rightarrow> WorkflowContext \<Rightarrow> StepResult" where
  "executeNotify send config ctx =
     (let msg = interpolate_results (stepResults ctx)
                  (interpolate_input (ctx_input ctx) (notify_message config));
          done = \<lparr> success = True, nextStepId = None, step_error = None,
                   step_output = JObj [(''channel'', JStr (channel_name (channel config))),
                                  (''message'', JStr msg)] \<rparr>
      in if channel config = Discord \<and> truthy_string (target config) then
           (let r = send (or_nil (target config)) msg
            in if \<not> send_success r
               then \<lparr> success = False, nextStepId = None, step_error = send_error r,
                      step_output = JUndefined \<rparr>
               else done)
         else done)"

subsection \<open>Control transfer between steps\<close>





subsection \<open>executeStep\<close>




subsection \<open>The first operator found, as the specification words it\<close>



subsection \<open>Example data\<close>

text \<open>The context of the test scenario: the step \<open>test\<close> reported success.\<close>

definition example_context :: WorkflowContext where
  "example_context =
     \<lparr> ctx_input = [(''taskTitle'', JStr ''Fix login''), (''note'', JStr ''a == b'')],
       stepResults = [(''test'', JObj [(''success'', JBool True)]),
                      (''generate'', JObj [(''report'', JStr ''All green'')])] \<rparr>"



text \<open>
  The completion notice of the template \<open>task-assignment\<close> of workflow-engine.ts
  (its message has the token between double quotes), and the steps of the template
  \<open>code-review\<close> from the condition on.
\<close>

definition example_notify :: NotifyConfig where
  "example_notify =
     \<lparr> channel = Discord, target = None,
       notify_message = ''Task '' @ [CHR 0x22] @ ''{{input.taskTitle}}'' @ [CHR 0x22]
                        @ '' completed successfully!'',
       embed = None \<rparr>"


definition example_send :: "string \<Rightarrow> string \<Rightarrow> SendResult" where
  "example_send url content = \<lparr> send_success = True, send_error = None \<rparr>"


section \<open>Properties of the containers\<close>

lemma set_sort_insert: "set (sort_insert cmp x ys) = insert x (set ys)"
  by (induction ys) auto

lemma set_js_sort: "set (js_sort cmp xs) = set xs"
  unfolding js_sort_def by (induction xs) (auto simp: set_sort_insert)

lemma length_sort_insert: "length (sort_insert cmp x ys) = Suc (length ys)"
  by (induction ys) auto

lemma length_js_sort: "length (js_sort cmp xs) = length xs"
  unfolding js_sort_def by (induction xs) (auto simp: length_sort_insert)

lemma distinct_sort_insert: "distinct (sort_insert cmp x ys) = (x \<notin> set ys \<and> distinct ys)"
  by (induction ys) (auto simp: set_sort_insert)

lemma distinct_js_sort: "distinct (js_sort cmp xs) = distinct xs"
  unfolding js_sort_def by (induction xs) (auto simp: distinct_sort_insert set_js_sort[unfolded js_sort_def])

text \<open>With a total and transitive comparator the result is ordered.\<close>

lemma sorted_sort_insert:
  assumes total: "\<And>a b. cmp a b \<le> 0 \<or> cmp b a \<le> 0"
    and trans: "\<And>a b c. cmp a b \<le> 0 \<Longrightarrow> cmp b c \<le> 0 \<Longrightarrow> cmp a c \<le> 0"
  shows "sorted_wrt (\<lambda>a b. cmp a b \<le> 0) ys
           \<Longrightarrow> sorted_wrt (\<lambda>a b. cmp a b \<le> 0) (sort_insert cmp x ys)"
proof (induction ys)
  case Nil
  then show ?case by simp
next
  case (Cons y ys)
  show ?case
  proof (cases "cmp x y \<le> 0")
    case True
    with Cons.prems trans show ?thesis by auto
  next
    case False
    with total have "cmp y x \<le> 0" by blast
    with False Cons show ?thesis by (auto simp: set_sort_insert)
  qed
qed

lemma sorted_js_sort:
  assumes total: "\<And>a b. cmp a b \<le> 0 \<or> cmp b a \<le> 0"
    and trans: "\<And>a b c. cmp a b \<le> 0 \<Longrightarrow> cmp b c \<le> 0 \<Longrightarrow> cmp a c \<le> 0"
  shows "sorted_wrt (\<lambda>a b. cmp a b \<le> 0) (js_sort cmp xs)"
  unfolding js_sort_def
proof (induction xs)
  case Nil
  then show ?case by simp
next
  case (Cons x xs)
  have "sorted_wrt (\<lambda>a b. cmp a b \<le> 0) (sort_insert cmp x (foldr (sort_insert cmp) xs []))"
    by (rule sorted_sort_insert[OF total trans Cons.IH])
  then show ?case by simp
qed

text \<open>\<open>Array.prototype.find\<close> on an ordered array returns a least element among those
  that satisfy the callback.\<close>

lemma find_first_in_sorted:
  assumes "find P xs = Some w" and "sorted_wrt R xs" and "R w w" and "e \<in> set xs" and "P e"
  shows "R w e"
  using assms
proof (induction xs)
  case Nil
  then show ?case by simp
next
  case (Cons x xs)
  then show ?case by (auto split: if_splits)
qed

lemma find_Some_set: "find P xs = Some w \<Longrightarrow> w \<in> set xs \<and> P w"
  by (induction xs) (auto split: if_splits)

lemma find_None_set: "find P xs = None \<longleftrightarrow> (\<forall>x\<in>set xs. \<not> P x)"
  by (induction xs) auto

lemma find_cong_set: "(\<And>x. x \<in> set xs \<Longrightarrow> P x = Q x) \<Longrightarrow> find P xs = find Q xs"
  by (induction xs) auto

lemma set_map_set: "set (map_set k v m) \<subseteq> insert (k, v) (set m)"
  by (induction m) auto

lemma set_map_delete: "set (map_delete k m) \<subseteq> set m"
  by (auto simp: map_delete_def)

lemma map_fst_map_set: "fst ` set (map_set k v m) = insert k (fst ` set m)"
  by (induction m) auto

lemma distinct_map_set: "distinct (map fst m) \<Longrightarrow> distinct (map fst (map_set k v m))"
proof (induction m)
  case Nil
  then show ?case by simp
next
  case (Cons e m)
  then show ?case using map_fst_map_set[of k v m] by (auto simp del: map_set.simps simp: map_set.simps)
qed

lemma distinct_map_delete: "distinct (map fst m) \<Longrightarrow> distinct (map fst (map_delete k m))"
  by (simp add: map_delete_def distinct_map_filter)

section \<open>Properties of the task queue\<close>

subsection \<open>getNext\<close>

lemma getNext_find:
  "getNext now q =
     map_option task
       (find (retry_ready now (retryDelayMs q)) (js_sort queue_compare (map_values (queue q))))"
proof (cases "js_sort queue_compare (map_values (queue q))")
  case Nil
  then have "length (queue q) = 0"
    using length_js_sort[of queue_compare "map_values (queue q)"] by (simp add: map_values_def)
  then show ?thesis using Nil by (simp add: getNext_def)
next
  case (Cons n rest)
  then have ne: "length (queue q) \<noteq> 0"
    using length_js_sort[of queue_compare "map_values (queue q)"] by (auto simp add: map_values_def)
  show ?thesis
    using Cons ne by (auto simp: getNext_def retry_ready_def Let_def split: option.splits)
qed

lemma retry_ready_eligible:
  "(0 < attempts qt \<longrightarrow> lastAttempt qt \<noteq> None) \<Longrightarrow> retry_ready now d qt = eligible now d qt"
  by (auto simp: retry_ready_def eligible_def split: option.splits)

lemma queue_compare_le:
  "queue_compare a b \<le> 0 \<longleftrightarrow>
     priority b < priority a \<or> (priority b = priority a \<and> queuedAt a \<le> queuedAt b)"
  by (auto simp: queue_compare_def)

lemma sorted_queue:
  "sorted_wrt (\<lambda>a b. queue_compare a b \<le> 0) (js_sort queue_compare xs)"
  by (rule sorted_js_sort) (auto simp: queue_compare_le)

text \<open>The operations of the queue keep \<open>attempts_recorded\<close>.\<close>

lemma attempts_recorded_new: "attempts_recorded (new_TaskQueue a b)"
  by (simp add: attempts_recorded_def new_TaskQueue_def map_values_def)

lemma attempts_recorded_enqueue:
  "attempts_recorded q \<Longrightarrow> attempts_recorded (enqueue now t p q)"
  using set_map_set[of "task_id t" _ "queue q"]
  by (fastforce simp: attempts_recorded_def enqueue_def map_values_def list_all_iff Let_def)

lemma attempts_recorded_markAttempt:
  "attempts_recorded q \<Longrightarrow> attempts_recorded (markAttempt now tid q)"
  using set_map_set[of tid _ "queue q"]
  by (fastforce simp: attempts_recorded_def markAttempt_def map_values_def list_all_iff
      split: option.splits)

lemma attempts_recorded_updatePriority:
  "attempts_recorded q \<Longrightarrow> attempts_recorded (snd (updatePriority tid p q))"
proof (cases "map_get (queue q) tid")
  case None
  then show "attempts_recorded q \<Longrightarrow> ?thesis" by (simp add: updatePriority_def)
next
  case (Some qt)
  assume wf: "attempts_recorded q"
  from Some have "(tid, qt) \<in> set (queue q)" by (simp add: map_get_def map_of_SomeD)
  with wf have "0 < attempts qt \<longrightarrow> lastAttempt qt \<noteq> None"
    by (force simp: attempts_recorded_def map_values_def list_all_iff)
  with wf Some set_map_set[of tid "qt\<lparr>priority := p\<rparr>" "queue q"] show ?thesis
    by (fastforce simp: attempts_recorded_def updatePriority_def map_values_def list_all_iff)
qed

lemma attempts_recorded_dequeue:
  "attempts_recorded q \<Longrightarrow> attempts_recorded (snd (dequeue tid q))"
  using set_map_delete[of tid "queue q"]
  by (fastforce simp: attempts_recorded_def dequeue_def map_values_def list_all_iff
      split: option.splits)

lemma attempts_recorded_startExecution:
  "attempts_recorded q \<Longrightarrow> attempts_recorded (snd (startExecution now tid aid q))"
proof -
  assume wf: "attempts_recorded q"
  let ?q1 = "q\<lparr> executions := map_set (''exec_'' @ tid @ ''_'' @ string_of_int now)
      \<lparr> execution = \<lparr> exec_id = ''exec_'' @ tid @ ''_'' @ string_of_int now, taskId = tid,
           agentId = aid, exec_status = Running, progress = 0, logs = [], result = None,
           error = None, startedAt = now, completedAt = None \<rparr>,
        state_logs = [], startTime = now \<rparr> (executions q) \<rparr>"
  from wf have "attempts_recorded ?q1" by (simp add: attempts_recorded_def)
  then have "attempts_recorded (snd (dequeue tid ?q1))" by (rule attempts_recorded_dequeue)
  then show ?thesis by (simp add: startExecution_def Let_def)
qed

text \<open>
  C1. In a queue with at least one eligible entry (attempt count 0, or at least the retry
  delay since the last attempt), \<open>getNext\<close> returns the task of an eligible entry that
  no eligible entry beats: none has a higher priority, and none of the same priority was
  enqueued earlier. It is the first eligible entry of the scan in priority order, also
  when the entry at the head of that order is not eligible. On an empty queue, and when
  no entry is eligible, it returns nothing.
\<close>

theorem getNext_highest_priority_eligible:
  assumes wf: "attempts_recorded q"
  shows "(queue q = [] \<longrightarrow> getNext now q = None)
       \<and> ((\<forall>qt \<in> set (map_values (queue q)). \<not> eligible now (retryDelayMs q) qt)
            \<longrightarrow> getNext now q = None)
       \<and> ((\<exists>qt \<in> set (map_values (queue q)). eligible now (retryDelayMs q) qt) \<longrightarrow>
            (\<exists>w \<in> set (map_values (queue q)).
                getNext now q = Some (task w)
              \<and> eligible now (retryDelayMs q) w
              \<and> (\<forall>qt \<in> set (map_values (queue q)). eligible now (retryDelayMs q) qt \<longrightarrow>
                    priority qt < priority w
                  \<or> (priority qt = priority w \<and> queuedAt w \<le> queuedAt qt))
              \<and> find (eligible now (retryDelayMs q))
                    (js_sort queue_compare (map_values (queue q))) = Some w))"
proof -
  let ?E = "eligible now (retryDelayMs q)"
  let ?xs = "map_values (queue q)"
  let ?s = "js_sort queue_compare ?xs"
  have same: "find (retry_ready now (retryDelayMs q)) ?s = find ?E ?s"
  proof (rule find_cong_set)
    fix x assume "x \<in> set ?s"
    then have "x \<in> set ?xs" by (simp add: set_js_sort)
    with wf have "0 < attempts x \<longrightarrow> lastAttempt x \<noteq> None"
      by (simp add: attempts_recorded_def list_all_iff)
    then show "retry_ready now (retryDelayMs q) x = ?E x" by (rule retry_ready_eligible)
  qed
  have next_eq: "getNext now q = map_option task (find ?E ?s)"
    by (simp add: getNext_find same)
  have c1: "queue q = [] \<longrightarrow> getNext now q = None"
    by (simp add: getNext_def)
  have c2: "(\<forall>qt \<in> set ?xs. \<not> ?E qt) \<longrightarrow> getNext now q = None"
  proof
    assume "\<forall>qt \<in> set ?xs. \<not> ?E qt"
    then have "find ?E ?s = None" by (simp add: find_None_set set_js_sort)
    then show "getNext now q = None" by (simp add: next_eq)
  qed
  have c3: "(\<exists>qt \<in> set ?xs. ?E qt) \<longrightarrow>
            (\<exists>w \<in> set ?xs. getNext now q = Some (task w) \<and> ?E w
              \<and> (\<forall>qt \<in> set ?xs. ?E qt \<longrightarrow>
                    priority qt < priority w
                  \<or> (priority qt = priority w \<and> queuedAt w \<le> queuedAt qt))
              \<and> find ?E ?s = Some w)"
  proof
    assume "\<exists>qt \<in> set ?xs. ?E qt"
    then have "find ?E ?s \<noteq> None" by (simp add: find_None_set set_js_sort)
    then obtain w where w: "find ?E ?s = Some w" by blast
    then have win: "w \<in> set ?xs" and wE: "?E w"
      using find_Some_set[OF w] by (simp_all add: set_js_sort)
    have best: "priority qt < priority w \<or> (priority qt = priority w \<and> queuedAt w \<le> queuedAt qt)"
      if "qt \<in> set ?xs" "?E qt" for qt
    proof -
      have "queue_compare w qt \<le> 0"
        by (rule find_first_in_sorted[OF w sorted_queue])
          (use that in \<open>simp_all add: queue_compare_le set_js_sort\<close>)
      then show ?thesis by (auto simp: queue_compare_le)
    qed
    show "\<exists>w \<in> set ?xs. getNext now q = Some (task w) \<and> ?E w
              \<and> (\<forall>qt \<in> set ?xs. ?E qt \<longrightarrow>
                    priority qt < priority w
                  \<or> (priority qt = priority w \<and> queuedAt w \<le> queuedAt qt))
              \<and> find ?E ?s = Some w"
      using win wE w best next_eq by auto
  qed
  from c1 c2 c3 show ?thesis by blast
qed

text \<open>
  In the example queue at time 10000 the entry of priority 5 was attempted 1000 ms ago
  and is not eligible; of the two entries of priority 1 the one enqueued first is returned.
\<close>

lemma example_queue_entries:
  "map_values (queue example_queue) =
     [ \<lparr> task = example_task ''t1'' (Some 5), priority = 5, queuedAt = 10, attempts = 1,
         lastAttempt = Some 9000 \<rparr>,
       \<lparr> task = example_task ''t2'' (Some 1), priority = 1, queuedAt = 20, attempts = 0,
         lastAttempt = None \<rparr>,
       \<lparr> task = example_task ''t3'' (Some 1), priority = 1, queuedAt = 30, attempts = 0,
         lastAttempt = None \<rparr> ]"
  by (simp add: example_queue_def enqueue_def markAttempt_def new_TaskQueue_def
      example_task_def map_values_def map_get_def Let_def)

lemma example_queue_delay: "retryDelayMs example_queue = 5000"
  by (simp add: example_queue_def enqueue_def markAttempt_def new_TaskQueue_def
      example_task_def map_get_def Let_def)

theorem getNext_highest_priority_eligible_witness:
  "attempts_recorded example_queue
   \<and> (\<exists>w \<in> set (map_values (queue example_queue)).
         getNext 10000 example_queue = Some (task w)
       \<and> eligible 10000 (retryDelayMs example_queue) w
       \<and> task w = example_task ''t2'' (Some 1))"
proof -
  have wf: "attempts_recorded example_queue"
    by (simp add: attempts_recorded_def example_queue_entries)
  have ex: "\<exists>qt \<in> set (map_values (queue example_queue)).
              eligible 10000 (retryDelayMs example_queue) qt"
    by (simp add: example_queue_entries example_queue_delay eligible_def)
  from getNext_highest_priority_eligible[OF wf, of 10000] ex
  obtain w where w: "w \<in> set (map_values (queue example_queue))"
      "getNext 10000 example_queue = Some (task w)"
      "eligible 10000 (retryDelayMs example_queue) w"
      "\<forall>qt \<in> set (map_values (queue example_queue)).
          eligible 10000 (retryDelayMs example_queue) qt \<longrightarrow>
            priority qt < priority w \<or> (priority qt = priority w \<and> queuedAt w \<le> queuedAt qt)"
    by blast
  from w(1,3,4) have "task w = example_task ''t2'' (Some 1)"
    by (auto simp: example_queue_entries example_queue_delay eligible_def)
  with wf w show ?thesis by blast
qed

subsection \<open>Attempts\<close>

lemma map_get_map_set_same: "map_get (map_set k v m) k = Some v"
  by (induction m) (auto simp: map_get_def)

lemma enqueue_attempts_zero:
  "map_option attempts (map_get (queue (enqueue now t p q)) (task_id t)) = Some 0"
  by (simp add: enqueue_def Let_def map_get_map_set_same)

text \<open>
  C2. The attempt count of a queued task does not stay monotonic: in the example queue the
  task \<open>t1\<close> has one attempt, and enqueueing the same task again leaves it with none.
\<close>

theorem enqueue_resets_attempts:
  "map_option attempts (map_get (queue example_queue) ''t1'') = Some 1
   \<and> map_option attempts
        (map_get (queue (enqueue 9500 (example_task ''t1'' (Some 5)) (Some 5) example_queue))
           ''t1'') = Some 0"
  by code_simp

subsection \<open>cleanup\<close>

lemma cleanup_loop_filter:
  "cleanup_loop ks (r, m) = (r + length ks, filter (\<lambda>e. fst e \<notin> set ks) m)"
proof (induction ks arbitrary: r m)
  case Nil
  then show ?case by simp
next
  case (Cons k ks)
  have "filter (\<lambda>e. fst e \<notin> set ks) (map_delete k m) = filter (\<lambda>e. fst e \<notin> set (k # ks)) m"
    by (auto simp: map_delete_def intro: filter_cong)
  with Cons show ?case by simp
qed

lemma set_cleanup_states:
  "set (cleanup_states q) = {e \<in> set (executions q). cleanup_candidate e}"
  by (auto simp: cleanup_states_def set_js_sort)

lemma distinct_cleanup_states:
  "distinct (map fst (executions q)) \<Longrightarrow> distinct (cleanup_states q)"
  by (simp add: cleanup_states_def distinct_js_sort distinct_map)

lemma cleanup_compare_le:
  "cleanup_compare a b \<le> 0 \<longleftrightarrow> completed_time (snd b) \<le> completed_time (snd a)"
  by (simp add: cleanup_compare_def)

lemma sorted_cleanup_states:
  "sorted_wrt (\<lambda>a b. cleanup_compare a b \<le> 0) (cleanup_states q)"
  unfolding cleanup_states_def by (rule sorted_js_sort) (auto simp: cleanup_compare_le)

lemma keys_identify:
  assumes "distinct (map fst m)" and "set d \<subseteq> set m" and "e \<in> set m"
  shows "fst e \<in> set (map fst d) \<longleftrightarrow> e \<in> set d"
proof
  assume "fst e \<in> set (map fst d)"
  then obtain e' where e': "e' \<in> set d" "fst e' = fst e" by auto
  with assms have "e' \<in> set m" by auto
  with assms(1,3) e'(2) have "e' = e"
    by (meson distinct_map inj_onD)
  with e' show "e \<in> set d" by simp
next
  assume "e \<in> set d" then show "fst e \<in> set (map fst d)" by simp
qed

lemma filter_keys_eq:
  assumes "distinct (map fst m)" and "set d \<subseteq> set m"
  shows "filter (\<lambda>e. fst e \<notin> set (map fst d)) m = filter (\<lambda>e. e \<notin> set d) m"
  by (rule filter_cong) (use keys_identify[OF assms] in auto)

lemma length_filter_removed:
  assumes "distinct m" and "distinct d" and "set d \<subseteq> set m"
  shows "length (filter (\<lambda>e. e \<notin> set d) m) = length m - length d"
proof -
  have "distinct (filter (\<lambda>e. e \<notin> set d) m)" using assms(1) by simp
  then have "length (filter (\<lambda>e. e \<notin> set d) m) = card (set (filter (\<lambda>e. e \<notin> set d) m))"
    by (rule distinct_card[symmetric])
  also have "set (filter (\<lambda>e. e \<notin> set d) m) = set m - set d" by auto
  also have "card (set m - set d) = card (set m) - card (set d)"
    using assms(3) by (simp add: card_Diff_subset)
  also have "\<dots> = length m - length d" using assms(1,2) by (simp add: distinct_card)
  finally show ?thesis .
qed

lemma cleanup_result:
  "cleanup keepLast q =
     (length (drop keepLast (cleanup_states q)),
      q\<lparr> executions := filter (\<lambda>e. fst e \<notin> set (map fst (drop keepLast (cleanup_states q)))) (executions q) \<rparr>)"
  by (simp add: cleanup_def Let_def cleanup_loop_filter)

text \<open>The operations of the queue keep \<open>ledger_wf\<close>.\<close>

lemma ledger_wf_alt:
  "ledger_wf q \<longleftrightarrow> distinct (map fst (executions q)) \<and> (\<forall>e \<in> set (executions q). completed_recorded e)"
  by (simp add: ledger_wf_def list_all_iff completed_recorded_def)

lemma ledger_wf_map_set:
  assumes "ledger_wf q" and "completed_recorded (k, st)"
  shows "ledger_wf (q\<lparr> executions := map_set k st (executions q) \<rparr>)"
  using assms set_map_set[of k st "executions q"]
  by (auto simp: ledger_wf_alt distinct_map_set)

lemma ledger_wf_new: "ledger_wf (new_TaskQueue a b)"
  by (simp add: ledger_wf_def new_TaskQueue_def)

lemma ledger_wf_queue_update: "ledger_wf (q\<lparr> queue := x \<rparr>) = ledger_wf q"
  by (simp add: ledger_wf_def)

lemma ledger_wf_enqueue: "ledger_wf q \<Longrightarrow> ledger_wf (enqueue now t p q)"
  by (simp add: enqueue_def Let_def ledger_wf_queue_update)

lemma ledger_wf_markAttempt: "ledger_wf q \<Longrightarrow> ledger_wf (markAttempt now tid q)"
  by (simp add: markAttempt_def ledger_wf_queue_update split: option.splits)

lemma ledger_wf_dequeue: "ledger_wf q \<Longrightarrow> ledger_wf (snd (dequeue tid q))"
  by (simp add: dequeue_def ledger_wf_queue_update split: option.splits)

lemma ledger_wf_startExecution:
  assumes "ledger_wf q"
  shows "ledger_wf (snd (startExecution now tid aid q))"
proof -
  let ?k = "''exec_'' @ tid @ ''_'' @ string_of_int now"
  let ?st = "\<lparr> execution = \<lparr> exec_id = ?k, taskId = tid, agentId = aid, exec_status = Running,
      progress = 0, logs = [], result = None, error = None, startedAt = now, completedAt = None \<rparr>,
      state_logs = [], startTime = now \<rparr>"
  have "completed_recorded (?k, ?st)" by (simp add: completed_recorded_def cleanup_candidate_def)
  from ledger_wf_map_set[OF assms this]
  have "ledger_wf (snd (dequeue tid (q\<lparr> executions := map_set ?k ?st (executions q) \<rparr>)))"
    by (rule ledger_wf_dequeue)
  then show ?thesis by (simp add: startExecution_def Let_def)
qed

lemma ledger_wf_addLog:
  assumes "ledger_wf q"
  shows "ledger_wf (addLog now eid lvl msg dat q)"
proof (cases "map_get (executions q) eid")
  case None
  with assms show ?thesis by (simp add: addLog_def)
next
  case (Some st)
  then have "(eid, st) \<in> set (executions q)" by (simp add: map_get_def map_of_SomeD)
  with assms have "completed_recorded (eid, st)" by (simp add: ledger_wf_alt)
  then have "completed_recorded (eid, st\<lparr> state_logs := state_logs st @ [\<lparr> log_timestamp = now, log_level = lvl, log_message = msg, log_data = dat \<rparr>],
      execution := (execution st)\<lparr> logs := state_logs st @ [\<lparr> log_timestamp = now, log_level = lvl, log_message = msg, log_data = dat \<rparr>] \<rparr> \<rparr>)"
    by (simp add: completed_recorded_def cleanup_candidate_def)
  from ledger_wf_map_set[OF assms this] Some show ?thesis by (simp add: addLog_def Let_def)
qed

lemma ledger_wf_completeExecution:
  assumes "ledger_wf q"
  shows "ledger_wf (snd (completeExecution now eid res q))"
proof (cases "map_get (executions q) eid")
  case None
  with assms show ?thesis by (simp add: completeExecution_def)
next
  case (Some st)
  have "completed_recorded (eid, st\<lparr> execution := (execution st)
        \<lparr> exec_status := Completed, progress := 100, result := res, completedAt := Some now \<rparr> \<rparr>)"
    by (simp add: completed_recorded_def)
  from ledger_wf_addLog[OF ledger_wf_map_set[OF assms this]] Some show ?thesis
    by (simp add: completeExecution_def Let_def)
qed

lemma ledger_wf_failExecution:
  assumes "ledger_wf q"
  shows "ledger_wf (snd (failExecution now eid err q))"
proof (cases "map_get (executions q) eid")
  case None
  with assms show ?thesis by (simp add: failExecution_def)
next
  case (Some st)
  have "completed_recorded (eid, st\<lparr> execution := (execution st)
        \<lparr> exec_status := Failed, error := Some err, completedAt := Some now \<rparr> \<rparr>)"
    by (simp add: completed_recorded_def)
  from ledger_wf_addLog[OF ledger_wf_map_set[OF assms this]] Some show ?thesis
    by (simp add: failExecution_def Let_def)
qed

lemma ledger_wf_blockExecution:
  assumes "ledger_wf q"
  shows "ledger_wf (snd (blockExecution now eid reason q))"
proof (cases "map_get (executions q) eid")
  case None
  with assms show ?thesis by (simp add: blockExecution_def)
next
  case (Some st)
  have "completed_recorded (eid, st\<lparr> execution := (execution st)
        \<lparr> exec_status := ExecBlocked, error := Some reason \<rparr> \<rparr>)"
    by (simp add: completed_recorded_def cleanup_candidate_def)
  from ledger_wf_addLog[OF ledger_wf_map_set[OF assms this]] Some show ?thesis
    by (simp add: blockExecution_def Let_def)
qed

lemma ledger_wf_updateProgress:
  assumes "ledger_wf q"
  shows "ledger_wf (updateProgress now eid p msg q)"
proof (cases "map_get (executions q) eid")
  case None
  with assms show ?thesis by (simp add: updateProgress_def)
next
  case (Some st)
  then have "(eid, st) \<in> set (executions q)" by (simp add: map_get_def map_of_SomeD)
  with assms have "completed_recorded (eid, st)" by (simp add: ledger_wf_alt)
  then have "completed_recorded (eid, st\<lparr> execution := (execution st)\<lparr> progress := min 100 (max 0 p) \<rparr> \<rparr>)"
    by (simp add: completed_recorded_def cleanup_candidate_def)
  from ledger_wf_map_set[OF assms this] have w: "ledger_wf (q\<lparr> executions := map_set eid
        (st\<lparr> execution := (execution st)\<lparr> progress := min 100 (max 0 p) \<rparr> \<rparr>) (executions q) \<rparr>)" .
  show ?thesis using Some w ledger_wf_addLog[OF w]
    by (simp add: updateProgress_def Let_def split: option.splits)
qed

lemma ledger_wf_cleanup:
  assumes "ledger_wf q"
  shows "ledger_wf (snd (cleanup keepLast q))"
  using assms by (auto simp: cleanup_result ledger_wf_alt distinct_map_filter)

text \<open>
  C8. On a well-formed ledger, for every \<open>keepLast\<close>, \<open>cleanup\<close> returns the number of
  entries it removed, which is the number of completed or failed executions beyond the
  first \<open>keepLast\<close> in the order of most recent completion; exactly those are removed;
  the completed or failed executions that stay are the \<open>keepLast\<close> first of that order,
  and each of them completed no earlier than any removed one. Executions that are neither
  completed nor failed (running ones among them) stay as they are, in their order; with
  only running executions \<open>cleanup 0\<close> removes nothing and returns 0.
\<close>

theorem cleanup_retains_most_recent:
  assumes wf: "ledger_wf q"
  shows "fst (cleanup keepLast q) = length (cleanup_states q) - keepLast
       \<and> fst (cleanup keepLast q)
           = length (executions q) - length (executions (snd (cleanup keepLast q)))
       \<and> set (cleanup_states q) = {e \<in> set (executions q). cleanup_candidate e}
       \<and> set (executions (snd (cleanup keepLast q)))
           = set (executions q) - set (drop keepLast (cleanup_states q))
       \<and> {e \<in> set (executions (snd (cleanup keepLast q))). cleanup_candidate e}
           = set (take keepLast (cleanup_states q))
       \<and> (\<forall>k \<in> set (take keepLast (cleanup_states q)).
            \<forall>d \<in> set (drop keepLast (cleanup_states q)).
              completedAt (execution (snd k)) \<noteq> None \<and> completedAt (execution (snd d)) \<noteq> None
              \<and> the (completedAt (execution (snd d))) \<le> the (completedAt (execution (snd k))))
       \<and> filter (\<lambda>e. \<not> cleanup_candidate e) (executions (snd (cleanup keepLast q)))
           = filter (\<lambda>e. \<not> cleanup_candidate e) (executions q)
       \<and> ((\<forall>e \<in> set (executions q). exec_status (execution (snd e)) = Running)
            \<longrightarrow> cleanup 0 q = (0, q))"
proof -
  let ?S = "cleanup_states q"
  let ?D = "drop keepLast ?S"
  let ?K = "take keepLast ?S"
  let ?E = "executions q"
  from wf have dk: "distinct (map fst ?E)" by (simp add: ledger_wf_def)
  then have dE: "distinct ?E" by (simp add: distinct_map)
  have dS: "distinct ?S" by (rule distinct_cleanup_states[OF dk])
  have SE: "set ?S \<subseteq> set ?E" by (auto simp: set_cleanup_states)
  have DE: "set ?D \<subseteq> set ?E" using SE set_drop_subset[of keepLast ?S] by blast
  have E': "executions (snd (cleanup keepLast q)) = filter (\<lambda>e. e \<notin> set ?D) ?E"
    using filter_keys_eq[OF dk DE] by (simp add: cleanup_result)
  have a1: "fst (cleanup keepLast q) = length ?S - keepLast" by (simp add: cleanup_result)
  have a2: "fst (cleanup keepLast q) = length ?E - length (executions (snd (cleanup keepLast q)))"
  proof -
    have "length (filter (\<lambda>e. e \<notin> set ?D) ?E) = length ?E - length ?D"
      by (rule length_filter_removed[OF dE _ DE]) (use dS in simp)
    moreover have "length ?D \<le> length ?E"
      using DE dS dE by (metis card_mono distinct_card distinct_drop finite_set)
    ultimately show ?thesis unfolding a1 E' by simp
  qed
  have a4: "set (executions (snd (cleanup keepLast q))) = set ?E - set ?D"
    by (auto simp: E')
  have KD: "set ?K \<inter> set ?D = {}"
    using dS by (metis append_take_drop_id distinct_append)
  have KuD: "set ?K \<union> set ?D = set ?S"
    by (metis append_take_drop_id set_append)
  have a5: "{e \<in> set (executions (snd (cleanup keepLast q))). cleanup_candidate e} = set ?K"
    using KD KuD by (auto simp: a4 set_cleanup_states)
  have a6: "\<forall>k \<in> set ?K. \<forall>d \<in> set ?D.
              completedAt (execution (snd k)) \<noteq> None \<and> completedAt (execution (snd d)) \<noteq> None
              \<and> the (completedAt (execution (snd d))) \<le> the (completedAt (execution (snd k)))"
  proof (intro ballI)
    fix k d assume k: "k \<in> set ?K" and d: "d \<in> set ?D"
    have "sorted_wrt (\<lambda>a b. cleanup_compare a b \<le> 0) (?K @ ?D)"
      using sorted_cleanup_states[of q] by (simp only: append_take_drop_id)
    then have "\<forall>x \<in> set ?K. \<forall>y \<in> set ?D. cleanup_compare x y \<le> 0"
      unfolding sorted_wrt_append by blast
    with k d have le: "completed_time (snd d) \<le> completed_time (snd k)"
      by (simp add: cleanup_compare_le)
    from k d KuD have "k \<in> set ?S" "d \<in> set ?S" by auto
    then have "k \<in> set ?E" "cleanup_candidate k" "d \<in> set ?E" "cleanup_candidate d"
      by (auto simp: set_cleanup_states)
    with wf have "completedAt (execution (snd k)) \<noteq> None" "completedAt (execution (snd d)) \<noteq> None"
      by (auto simp: ledger_wf_def list_all_iff completed_recorded_def)
    with le show "completedAt (execution (snd k)) \<noteq> None \<and> completedAt (execution (snd d)) \<noteq> None
              \<and> the (completedAt (execution (snd d))) \<le> the (completedAt (execution (snd k)))"
      by (auto simp: completed_time_def)
  qed
  have a7: "filter (\<lambda>e. \<not> cleanup_candidate e) (executions (snd (cleanup keepLast q)))
           = filter (\<lambda>e. \<not> cleanup_candidate e) ?E"
  proof -
    have "filter (\<lambda>e. \<not> cleanup_candidate e) (filter (\<lambda>e. e \<notin> set ?D) ?E)
            = filter (\<lambda>e. \<not> cleanup_candidate e) ?E"
      unfolding filter_filter
      by (rule filter_cong) (use KuD in \<open>auto simp: set_cleanup_states\<close>)
    then show ?thesis by (simp add: E')
  qed
  have a8: "(\<forall>e \<in> set ?E. exec_status (execution (snd e)) = Running) \<longrightarrow> cleanup 0 q = (0, q)"
  proof
    assume run: "\<forall>e \<in> set ?E. exec_status (execution (snd e)) = Running"
    then have "filter cleanup_candidate ?E = []"
      by (auto simp: filter_empty_conv cleanup_candidate_def)
    then have "?S = []" by (simp add: cleanup_states_def js_sort_def)
    then show "cleanup 0 q = (0, q)" by (simp add: cleanup_result)
  qed
  from a1 a2 set_cleanup_states[of q] a4 a5 a6 a7 a8 show ?thesis by blast
qed

text \<open>
  In the example ledger \<open>cleanup 1\<close> removes the executions that ended at 500 and 600,
  keeps the one that ended at 700 and the running one, and returns 2.
\<close>

theorem cleanup_retains_most_recent_witness:
  "ledger_wf example_ledger
   \<and> fst (cleanup 1 example_ledger) = length (cleanup_states example_ledger) - 1
   \<and> fst (cleanup 1 example_ledger) = 2
   \<and> map fst (executions (snd (cleanup 1 example_ledger))) = [''exec_c_300'', ''exec_d_400'']"
proof -
  have wf: "ledger_wf example_ledger" by code_simp
  have n: "fst (cleanup 1 example_ledger) = 2" by code_simp
  have ks: "map fst (executions (snd (cleanup 1 example_ledger))) = [''exec_c_300'', ''exec_d_400'']"
    by code_simp
  from cleanup_retains_most_recent[OF wf, of 1]
  have "fst (cleanup 1 example_ledger) = length (cleanup_states example_ledger) - 1" by blast
  with wf n ks show ?thesis by blast
qed

section \<open>Properties of the orchestrator\<close>

subsection \<open>selectAgent\<close>






text \<open>Registration and the running average keep the durations non-negative.\<close>

lemma durations_nonnegative_registerAgent:
  assumes "durations_nonnegative orch"
  shows "durations_nonnegative (snd (registerAgent ag orch))"
  using assms set_map_set[of "agente_id ag" _ "agents orch"]
  by (fastforce simp: durations_nonnegative_def registerAgent_def Let_def list_all_iff map_values_def)

lemma updateAverageTaskDuration_nonnegative:
  assumes "0 \<le> averageTaskDuration (metrics a)" and "0 \<le> d"
  shows "0 \<le> averageTaskDuration (metrics (updateAverageTaskDuration a d))"
proof (cases "tasksCompleted (metrics a) = 0")
  case True
  with assms show ?thesis by (simp add: updateAverageTaskDuration_def)
next
  case False
  then have "(1::rat) \<le> of_nat (tasksCompleted (metrics a))" by (simp add: Suc_leI)
  with assms have "0 \<le> averageTaskDuration (metrics a) * (of_nat (tasksCompleted (metrics a)) - 1) + d"
    by simp
  with False show ?thesis by (simp add: updateAverageTaskDuration_def)
qed



subsection \<open>executeTask\<close>




subsection \<open>getExecutionByTaskId and getTaskProgress\<close>

lemma first_for_task_decomp:
  "first_for_task tid sts = Some e \<Longrightarrow>
     \<exists>pre st post. sts = pre @ st # post \<and> e = execution st \<and> taskId (execution st) = tid
        \<and> (\<forall>s \<in> set pre. taskId (execution s) \<noteq> tid)"
proof (induction sts)
  case Nil
  then show ?case by simp
next
  case (Cons s sts)
  show ?case
  proof (cases "taskId (execution s) = tid")
    case True
    with Cons.prems have "s # sts = [] @ s # sts \<and> e = execution s \<and> taskId (execution s) = tid
        \<and> (\<forall>s \<in> set []. taskId (execution s) \<noteq> tid)" by simp
    then show ?thesis by blast
  next
    case False
    with Cons.prems have "first_for_task tid sts = Some e" by simp
    from Cons.IH[OF this] obtain pre st post where
      "sts = pre @ st # post" "e = execution st" "taskId (execution st) = tid"
      "\<forall>s \<in> set pre. taskId (execution s) \<noteq> tid" by blast
    with False have "s # sts = (s # pre) @ st # post \<and> e = execution st \<and> taskId (execution st) = tid
        \<and> (\<forall>s \<in> set (s # pre). taskId (execution s) \<noteq> tid)" by simp
    then show ?thesis by blast
  qed
qed

lemma first_for_task_None:
  "first_for_task tid sts = None \<longleftrightarrow> filter (\<lambda>st. taskId (execution st) = tid) sts = []"
  by (induction sts) auto

text \<open>Starting an execution under a fresh id, at a time not before the earlier starts, keeps the
  ledger in order of creation.\<close>

lemma map_set_fresh: "k \<notin> fst ` set m \<Longrightarrow> map_set k v m = m @ [(k, v)]"
  by (induction m) auto

lemma ledger_chronological_startExecution:
  assumes "ledger_chronological q"
    and "\<forall>st \<in> set (map_values (executions q)). startedAt (execution st) \<le> now"
    and "\<not> map_has (executions q) (''exec_'' @ tid @ ''_'' @ string_of_int now)"
  shows "ledger_chronological (snd (startExecution now tid aid q))"
proof -
  let ?k = "''exec_'' @ tid @ ''_'' @ string_of_int now"
  from assms(3) have "?k \<notin> fst ` set (executions q)"
    by (simp add: map_has_def map_of_eq_None_iff)
  then have "executions (snd (startExecution now tid aid q))
      = executions q @ [(?k, \<lparr> execution = \<lparr> exec_id = ?k, taskId = tid, agentId = aid,
            exec_status = Running, progress = 0, logs = [], result = None, error = None,
            startedAt = now, completedAt = None \<rparr>, state_logs = [], startTime = now \<rparr>)]"
    by (simp add: startExecution_def Let_def dequeue_def map_set_fresh split: option.splits)
  with assms(1,2) show ?thesis
    by (auto simp: ledger_chronological_def map_values_def sorted_append)
qed

text \<open>
  C10. When the ledger holds more than one execution for a task id,
  \<open>getExecutionByTaskId\<close> returns the first of them in the insertion order of the
  ledger: no execution before it has the task id, and at least one after it has. In a
  ledger that lists executions by creation time it is the one created earliest.
  \<open>getTaskProgress\<close> reports the status and the progress of that execution.
\<close>

theorem getExecutionByTaskId_earliest:
  assumes many: "1 < length (filter (\<lambda>st. taskId (execution st) = tid) (map_values (executions q)))"
  shows "\<exists>pre st post.
           map_values (executions q) = pre @ st # post
         \<and> taskId (execution st) = tid
         \<and> (\<forall>s \<in> set pre. taskId (execution s) \<noteq> tid)
         \<and> (\<exists>s \<in> set post. taskId (execution s) = tid)
         \<and> getExecutionByTaskId q tid = Some (execution st)
         \<and> (ledger_chronological q \<longrightarrow>
              (\<forall>s \<in> set (map_values (executions q)).
                 taskId (execution s) = tid \<longrightarrow> startedAt (execution st) \<le> startedAt (execution s)))
         \<and> (\<forall>orch now. taskQueue orch = q \<longrightarrow>
              (\<exists>p. getTaskProgress now orch tid = Some p
                 \<and> tp_status p = exec_status (execution st)
                 \<and> tp_progress p = progress (execution st)))"
proof -
  let ?vs = "map_values (executions q)"
  let ?m = "\<lambda>st. taskId (execution st) = tid"
  from many have "filter ?m ?vs \<noteq> []" by auto
  then have "first_for_task tid ?vs \<noteq> None" by (simp add: first_for_task_None)
  then obtain e where e: "first_for_task tid ?vs = Some e" by blast
  from first_for_task_decomp[OF e] obtain pre st post where
    dec: "?vs = pre @ st # post" "e = execution st" "taskId (execution st) = tid"
      "\<forall>s \<in> set pre. taskId (execution s) \<noteq> tid" by blast
  have "filter ?m pre = []" using dec(4) by (auto simp: filter_empty_conv)
  with dec(1,3) have "filter ?m ?vs = st # filter ?m post" by simp
  with many have "filter ?m post \<noteq> []" by auto
  then have later: "\<exists>s \<in> set post. taskId (execution s) = tid"
    by (auto simp: filter_empty_conv)
  have got: "getExecutionByTaskId q tid = Some (execution st)"
    using e dec(2) by (simp add: getExecutionByTaskId_def)
  have chrono: "ledger_chronological q \<longrightarrow>
              (\<forall>s \<in> set ?vs. taskId (execution s) = tid \<longrightarrow> startedAt (execution st) \<le> startedAt (execution s))"
  proof (intro impI ballI)
    fix s assume c: "ledger_chronological q" and s: "s \<in> set ?vs" and m: "taskId (execution s) = tid"
    from c dec(1) have srt: "sorted (map (\<lambda>st. startedAt (execution st)) (pre @ st # post))"
      by (simp add: ledger_chronological_def)
    from s dec(1) dec(4) m have "s = st \<or> s \<in> set post" by auto
    with srt show "startedAt (execution st) \<le> startedAt (execution s)"
      by (auto simp: sorted_append)
  qed
  have prog: "\<forall>orch now. taskQueue orch = q \<longrightarrow>
              (\<exists>p. getTaskProgress now orch tid = Some p
                 \<and> tp_status p = exec_status (execution st)
                 \<and> tp_progress p = progress (execution st))"
    using got by (simp add: getTaskProgress_def)
  from dec(1,3,4) later got chrono prog show ?thesis by blast
qed

text \<open>
  In the example the task \<open>a\<close> was paused and started again: the lookup returns the
  blocked execution of time 100, not the running one of time 200.
\<close>

theorem getExecutionByTaskId_earliest_witness:
  "1 < length (filter (\<lambda>st. taskId (execution st) = ''a'') (map_values (executions example_resumed_ledger)))
   \<and> map (\<lambda>st. (exec_id (execution st), exec_status (execution st)))
        (map_values (executions example_resumed_ledger))
       = [(''exec_a_100'', ExecBlocked), (''exec_a_200'', Running)]
   \<and> map_option exec_id (getExecutionByTaskId example_resumed_ledger ''a'') = Some ''exec_a_100''
   \<and> (\<exists>p. getTaskProgress 300 example_resumed_orchestrator ''a'' = Some p
          \<and> tp_status p = ExecBlocked \<and> tp_progress p = 0)"
proof -
  have many: "1 < length (filter (\<lambda>st. taskId (execution st) = ''a'')
                 (map_values (executions example_resumed_ledger)))" by code_simp
  have ids: "map (\<lambda>st. (exec_id (execution st), exec_status (execution st)))
        (map_values (executions example_resumed_ledger))
       = [(''exec_a_100'', ExecBlocked), (''exec_a_200'', Running)]" by code_simp
  have q: "taskQueue example_resumed_orchestrator = example_resumed_ledger"
    by (simp add: example_resumed_orchestrator_def)
  from getExecutionByTaskId_earliest[OF many] obtain pre st post where
    d: "map_values (executions example_resumed_ledger) = pre @ st # post"
       "\<forall>s \<in> set pre. taskId (execution s) \<noteq> ''a''"
       "getExecutionByTaskId example_resumed_ledger ''a'' = Some (execution st)"
       "\<forall>orch now. taskQueue orch = example_resumed_ledger \<longrightarrow>
              (\<exists>p. getTaskProgress now orch ''a'' = Some p
                 \<and> tp_status p = exec_status (execution st)
                 \<and> tp_progress p = progress (execution st))"
    by blast
  have first: "map_option (\<lambda>e. (exec_id e, exec_status e, progress e))
                  (getExecutionByTaskId example_resumed_ledger ''a'')
               = Some (''exec_a_100'', ExecBlocked, 0)" by code_simp
  with d(3) have st: "exec_id (execution st) = ''exec_a_100''"
     "exec_status (execution st) = ExecBlocked" "progress (execution st) = 0" by simp_all
  from d(4) q obtain p where "getTaskProgress 300 example_resumed_orchestrator ''a'' = Some p"
     "tp_status p = exec_status (execution st)" "tp_progress p = progress (execution st)" by blast
  with st have "\<exists>p. getTaskProgress 300 example_resumed_orchestrator ''a'' = Some p
          \<and> tp_status p = ExecBlocked \<and> tp_progress p = 0" by simp
  with many ids d(3) st show ?thesis by simp
qed

section \<open>Properties of the persona manager\<close>

subsection \<open>buildSystemPrompt\<close>

lemma push_triggers_append:
  "push_triggers ts parts = parts @ map (\<lambda>t. ''- '' @ message t) ts"
  by (induction ts arbitrary: parts) (auto simp: push_def)

lemma push_soul_append: "push_soul ag parts = parts @ soul_part (soul ag)"
  by (simp add: push_soul_def soul_part_def push_def)

lemma push_rules_append: "push_rules ag parts = parts @ rules_section (regras ag)"
  by (cases "regras ag") (simp_all add: push_rules_def rules_section_def push_def Let_def)

lemma push_limiters_append: "push_limiters ag parts = parts @ limiters_section (limitadores ag)"
  by (cases "limitadores ag") (simp_all add: push_limiters_def limiters_section_def push_def Let_def)

lemma push_block_triggers_append:
  "push_block_triggers ag parts = parts @ triggers_section (gatilhos_bloqueio ag)"
  by (simp add: push_block_triggers_def triggers_section_def push_def push_triggers_append)

lemma push_task_context_append: "push_task_context ctx parts = parts @ context_section ctx"
  by (cases ctx) (simp_all add: push_task_context_def context_section_def push_def Let_def)

lemma prompt_parts:
  "buildSystemPrompt ag ctx =
     join ''\<newline>''
       (soul_part (soul ag) @ rules_section (regras ag) @ limiters_section (limitadores ag)
        @ triggers_section (gatilhos_bloqueio ag) @ context_section ctx)"
  by (simp add: buildSystemPrompt_def Let_def push_soul_append push_rules_append
      push_limiters_append push_block_triggers_append push_task_context_append)


text \<open>
  C7. The text of \<open>buildSystemPrompt\<close> is the lines of five sections joined by line
  breaks, in the fixed order persona narrative, rules, limiters, block triggers, task
  context; each section is a function of the one field it reads. The function reads no
  state and no clock, so two runs that agree on those fields and on the context give the
  same text, character for character; identical inputs in particular.
\<close>

theorem buildSystemPrompt_pure_concatenation:
  "buildSystemPrompt ag ctx =
     join ''\<newline>''
       (soul_part (soul ag) @ rules_section (regras ag) @ limiters_section (limitadores ag)
        @ triggers_section (gatilhos_bloqueio ag) @ context_section ctx)
   \<and> (\<forall>ag' ctx'.
         soul ag' = soul ag \<and> regras ag' = regras ag \<and> limitadores ag' = limitadores ag
         \<and> gatilhos_bloqueio ag' = gatilhos_bloqueio ag \<and> ctx' = ctx
         \<longrightarrow> buildSystemPrompt ag' ctx' = buildSystemPrompt ag ctx)"
  by (simp add: prompt_parts)

text \<open>
  Two profiles that differ in id and name and share the persona get the same prompt, the
  text shown.
\<close>

theorem buildSystemPrompt_pure_concatenation_witness:
  "soul (example_profile ''dev-2'' DEFAULT_BLOCK_TRIGGERS)
     = soul (example_profile ''dev-1'' DEFAULT_BLOCK_TRIGGERS)
   \<and> example_profile ''dev-2'' DEFAULT_BLOCK_TRIGGERS \<noteq> example_profile ''dev-1'' DEFAULT_BLOCK_TRIGGERS
   \<and> buildSystemPrompt (example_profile ''dev-2'' DEFAULT_BLOCK_TRIGGERS)
         (Some \<lparr> taskTitle = Some ''Fix login'', taskDescription = None \<rparr>)
       = buildSystemPrompt (example_profile ''dev-1'' DEFAULT_BLOCK_TRIGGERS)
           (Some \<lparr> taskTitle = Some ''Fix login'', taskDescription = None \<rparr>)
   \<and> buildSystemPrompt (example_profile ''dev-1'' DEFAULT_BLOCK_TRIGGERS)
         (Some \<lparr> taskTitle = Some ''Fix login'', taskDescription = None \<rparr>)
       = ''You are a careful developer.\<newline>\<newline>## Rules and Guidelines\<newline>- You are specialized in: code, test\<newline>- You must ASK FOR APPROVAL before: deploy\<newline>- You should ask for confirmation before completing tasks\<newline>\<newline>## Constraints\<newline>- Maximum task duration: 15 minutes\<newline>- Maximum retry attempts: 3\<newline>\<newline>## When to Stop and Ask\<newline>- High uncertainty - need clarification before proceeding\<newline>- This task requires access to external systems\<newline>- This operation could cause data loss\<newline>- Estimated cost exceeds configured limit\<newline>\<newline>## Current Task\<newline>**Title:** Fix login''"
proof -
  let ?a = "example_profile ''dev-1'' DEFAULT_BLOCK_TRIGGERS"
  let ?b = "example_profile ''dev-2'' DEFAULT_BLOCK_TRIGGERS"
  let ?c = "Some \<lparr> taskTitle = Some ''Fix login'', taskDescription = None \<rparr>"
  have same: "soul ?b = soul ?a \<and> regras ?b = regras ?a \<and> limitadores ?b = limitadores ?a
      \<and> gatilhos_bloqueio ?b = gatilhos_bloqueio ?a"
    by (simp add: example_profile_def)
  have diff: "?b \<noteq> ?a" by (simp add: example_profile_def)
  from buildSystemPrompt_pure_concatenation[of ?a ?c] same
  have eq: "buildSystemPrompt ?b ?c = buildSystemPrompt ?a ?c" by blast
  have shown: "buildSystemPrompt ?a ?c
       = ''You are a careful developer.\<newline>\<newline>## Rules and Guidelines\<newline>- You are specialized in: code, test\<newline>- You must ASK FOR APPROVAL before: deploy\<newline>- You should ask for confirmation before completing tasks\<newline>\<newline>## Constraints\<newline>- Maximum task duration: 15 minutes\<newline>- Maximum retry attempts: 3\<newline>\<newline>## When to Stop and Ask\<newline>- High uncertainty - need clarification before proceeding\<newline>- This task requires access to external systems\<newline>- This operation could cause data loss\<newline>- Estimated cost exceeds configured limit\<newline>\<newline>## Current Task\<newline>**Title:** Fix login''"
    by code_simp
  from same diff eq shown show ?thesis by blast
qed

subsection \<open>checkBlockTriggers\<close>

lemma checkBlockTriggers_loop_None:
  "checkBlockTriggers_loop sig ts = None \<longleftrightarrow> (\<forall>t \<in> set ts. \<not> trigger_fires sig t)"
  by (induction ts) auto

lemma checkBlockTriggers_loop_Some:
  "checkBlockTriggers_loop sig ts = Some t \<Longrightarrow>
     \<exists>pre post. ts = pre @ t # post \<and> trigger_fires sig t \<and> (\<forall>u \<in> set pre. \<not> trigger_fires sig u)"
proof (induction ts)
  case Nil
  then show ?case by simp
next
  case (Cons x ts)
  show ?case
  proof (cases "trigger_fires sig x")
    case True
    with Cons.prems have "x # ts = [] @ t # ts \<and> trigger_fires sig t
        \<and> (\<forall>u \<in> set []. \<not> trigger_fires sig u)" by simp
    then show ?thesis by blast
  next
    case False
    with Cons.prems have "checkBlockTriggers_loop sig ts = Some t" by simp
    from Cons.IH[OF this] obtain pre post where
      "ts = pre @ t # post" "trigger_fires sig t" "\<forall>u \<in> set pre. \<not> trigger_fires sig u" by blast
    with False have "x # ts = (x # pre) @ t # post \<and> trigger_fires sig t
        \<and> (\<forall>u \<in> set (x # pre). \<not> trigger_fires sig u)" by simp
    then show ?thesis by blast
  qed
qed

lemma match_digits_dots_nonempty:
  assumes "match_digits_dots s = Some run"
  shows "run \<noteq> []"
proof -
  let ?r = "dropWhile (\<lambda>c. \<not> is_digit_or_dot c) s"
  from assms have ne: "?r \<noteq> []" and run: "run = takeWhile is_digit_or_dot ?r"
    by (auto simp: match_digits_dots_def Let_def split: if_splits)
  from ne obtain x xs where r: "?r = x # xs" by (cases ?r) auto
  from hd_dropWhile[OF ne] r have "is_digit_or_dot x" by simp
  with run r show ?thesis by simp
qed

lemma checkBlockTriggers_loop_eq:
  "checkBlockTriggers ag sig = checkBlockTriggers_loop sig (or_empty (gatilhos_bloqueio ag))"
  by (auto simp: checkBlockTriggers_def has_length_def or_empty_def split: option.splits)


text \<open>
  C6, as amended. \<open>checkBlockTriggers\<close> goes through the triggers of the profile in
  declared order and returns the first that fires, and nothing when none fires or the list
  is empty or absent. A trigger fires when its lower-cased condition text contains
  \<open>uncertainty\<close> and the uncertainty signal is supplied and exceeds the threshold; or
  contains \<open>external_access\<close> and that signal is true; or contains \<open>destructive\<close> and
  that signal is true; or contains \<open>cost\<close> and both cost signals are supplied with the
  estimate above the limit. The threshold is what \<open>parseFloat\<close> reads from the first run
  of digits and dots in the text, and 0.8 when the text has no digit and no dot.
\<close>

theorem checkBlockTriggers_first_firing:
  "(checkBlockTriggers ag sig = None
      \<longleftrightarrow> (\<forall>t \<in> set (or_empty (gatilhos_bloqueio ag)). \<not> trigger_fires sig t))
   \<and> (\<forall>t. checkBlockTriggers ag sig = Some t \<longrightarrow>
          (\<exists>pre post. or_empty (gatilhos_bloqueio ag) = pre @ t # post
              \<and> trigger_fires sig t \<and> (\<forall>u \<in> set pre. \<not> trigger_fires sig u)))
   \<and> (\<forall>t. trigger_fires sig t \<longleftrightarrow>
          (includes_str (toLowerCase (condition t)) ''uncertainty''
             \<and> (\<exists>u. uncertainty sig = Some u
                    \<and> num_greater u (uncertainty_threshold (toLowerCase (condition t)))))
        \<or> (includes_str (toLowerCase (condition t)) ''external_access''
             \<and> requiresExternalAccess sig = Some True)
        \<or> (includes_str (toLowerCase (condition t)) ''destructive''
             \<and> isDestructive sig = Some True)
        \<or> (includes_str (toLowerCase (condition t)) ''cost''
             \<and> (\<exists>c l. estimatedCost sig = Some c \<and> costLimit sig = Some l \<and> num_greater c l)))
   \<and> (\<forall>c. uncertainty_threshold c =
          (case match_digits_dots c of
             Some run \<Rightarrow> parseFloat run
           | None \<Rightarrow> Fin (4 / 5)))"
proof -
  have a: "checkBlockTriggers ag sig = None
      \<longleftrightarrow> (\<forall>t \<in> set (or_empty (gatilhos_bloqueio ag)). \<not> trigger_fires sig t)"
    by (simp add: checkBlockTriggers_loop_eq checkBlockTriggers_loop_None)
  have b: "\<forall>t. checkBlockTriggers ag sig = Some t \<longrightarrow>
          (\<exists>pre post. or_empty (gatilhos_bloqueio ag) = pre @ t # post
              \<and> trigger_fires sig t \<and> (\<forall>u \<in> set pre. \<not> trigger_fires sig u))"
    using checkBlockTriggers_loop_Some by (simp add: checkBlockTriggers_loop_eq)
  have c: "\<forall>t. trigger_fires sig t \<longleftrightarrow>
          (includes_str (toLowerCase (condition t)) ''uncertainty''
             \<and> (\<exists>u. uncertainty sig = Some u
                    \<and> num_greater u (uncertainty_threshold (toLowerCase (condition t)))))
        \<or> (includes_str (toLowerCase (condition t)) ''external_access''
             \<and> requiresExternalAccess sig = Some True)
        \<or> (includes_str (toLowerCase (condition t)) ''destructive''
             \<and> isDestructive sig = Some True)
        \<or> (includes_str (toLowerCase (condition t)) ''cost''
             \<and> (\<exists>c l. estimatedCost sig = Some c \<and> costLimit sig = Some l \<and> num_greater c l))"
    by (auto simp: trigger_fires_def Let_def split: option.splits)
  have p08: "parseFloat ''0.8'' = Fin (4 / 5)" by code_simp
  have d: "\<forall>c. uncertainty_threshold c =
          (case match_digits_dots c of Some run \<Rightarrow> parseFloat run | None \<Rightarrow> Fin (4 / 5))"
  proof
    fix c
    show "uncertainty_threshold c =
          (case match_digits_dots c of Some run \<Rightarrow> parseFloat run | None \<Rightarrow> Fin (4 / 5))"
    proof (cases "match_digits_dots c")
      case None
      then show ?thesis by (simp add: uncertainty_threshold_def p08)
    next
      case (Some run)
      then have "run \<noteq> []" by (rule match_digits_dots_nonempty)
      with Some show ?thesis by (simp add: uncertainty_threshold_def)
    qed
  qed
  from a b c d show ?thesis by blast
qed

text \<open>
  With the default triggers and the signals of the cost scenario the first three triggers do
  not fire and the cost trigger is returned.
\<close>

theorem checkBlockTriggers_first_firing_witness:
  "checkBlockTriggers (example_profile ''dev-1'' DEFAULT_BLOCK_TRIGGERS) cost_signals
     = Some (last DEFAULT_BLOCK_TRIGGERS)
   \<and> condition (last DEFAULT_BLOCK_TRIGGERS) = ''cost_exceeds_limit''
   \<and> trigger_fires cost_signals (last DEFAULT_BLOCK_TRIGGERS)
   \<and> (\<exists>pre post.
         or_empty (gatilhos_bloqueio (example_profile ''dev-1'' DEFAULT_BLOCK_TRIGGERS))
           = pre @ last DEFAULT_BLOCK_TRIGGERS # post
       \<and> (\<forall>u \<in> set pre. \<not> trigger_fires cost_signals u))"
proof -
  let ?p = "example_profile ''dev-1'' DEFAULT_BLOCK_TRIGGERS"
  have v: "checkBlockTriggers ?p cost_signals = Some (last DEFAULT_BLOCK_TRIGGERS)" by code_simp
  have c: "condition (last DEFAULT_BLOCK_TRIGGERS) = ''cost_exceeds_limit''"
    by (simp add: DEFAULT_BLOCK_TRIGGERS_def)
  from checkBlockTriggers_first_firing[of ?p cost_signals] v
  obtain pre post where "or_empty (gatilhos_bloqueio ?p) = pre @ last DEFAULT_BLOCK_TRIGGERS # post"
      "trigger_fires cost_signals (last DEFAULT_BLOCK_TRIGGERS)"
      "\<forall>u \<in> set pre. \<not> trigger_fires cost_signals u"
    by blast
  with v c show ?thesis by blast
qed

text \<open>
  The claim as stated reads the threshold from the literal that ends the condition text.
  The text of \<open>numbered_trigger\<close> holds the number 2 before its trailing literal 0.5: the
  uncertainty 0.9 exceeds 0.5, so by the claim the trigger fires, but the code compares
  with 2 and returns nothing.
\<close>

theorem checkBlockTriggers_trailing_literal_counterexample:
  "includes_str (toLowerCase (condition numbered_trigger)) ''uncertainty''
   \<and> trailing_literal (toLowerCase (condition numbered_trigger)) = Some ''0.5''
   \<and> uncertainty uncertain_signals = Some (Fin (9 / 10))
   \<and> num_greater (Fin (9 / 10)) (claimed_threshold (toLowerCase (condition numbered_trigger)))
   \<and> checkBlockTriggers (example_profile ''dev-1'' [numbered_trigger]) uncertain_signals = None"
  by code_simp

section \<open>Properties of the workflow engine\<close>

subsection \<open>Condition steps\<close>
















subsection \<open>Notify steps\<close>

text \<open>A notify step fails exactly when it has a chat target and the forward to it fails.\<close>

lemma executeNotify_fails_iff:
  "success (executeNotify send config ctx) \<longleftrightarrow>
     \<not> (channel config = Discord \<and> truthy_string (target config)
        \<and> \<not> send_success (send (or_nil (target config))
               (interpolate_results (stepResults ctx)
                  (interpolate_input (ctx_input ctx) (notify_message config)))))"
  by (auto simp: executeNotify_def Let_def)

text \<open>
  C9. The interpolation does not reach the tokens \<open>{{input.x}}\<close> and
  \<open>{{results.step.x}}\<close>: it replaces \<open>{{x}}\<close> for a key \<open>x\<close> of the input and
  \<open>{{results.step}}\<close> for a step id. The completion notice of the template
  \<open>task-assignment\<close> comes out with its token \<open>{{input.taskTitle}}\<close> untouched, and so
  does a message with the token \<open>{{results.generate.report}}\<close>, while \<open>{{taskTitle}}\<close>
  is replaced.
\<close>

theorem executeNotify_leaves_namespaced_tokens:
  "executeNotify example_send example_notify example_context
     = \<lparr> success = True, nextStepId = None, step_error = None,
         step_output = JObj [(''channel'', JStr ''discord''),
                             (''message'', JStr (''Task '' @ [CHR 0x22] @ ''{{input.taskTitle}}''
                                                 @ [CHR 0x22] @ '' completed successfully!''))] \<rparr>
   \<and> interpolate_results (stepResults example_context)
         (interpolate_input (ctx_input example_context) ''Daily Standup: {{results.generate.report}}'')
       = ''Daily Standup: {{results.generate.report}}''
   \<and> interpolate_input (ctx_input example_context) ''Task {{taskTitle}} completed''
       = ''Task Fix login completed''"
  by code_simp

end
